theory Spec2Isabelle
  imports Complex_Main "HOL-Library.Char_ord" "HOL-Library.List_Lexorder"
begin

section \<open>Python values and exceptions\<close>

text \<open>
  The scripts work on values decoded from JSON and on database rows. A value is
  modelled by its Python type: \<open>None\<close>, a bool, a number (by its value), a \<open>str\<close>,
  a \<open>list\<close>, or a \<open>dict\<close> with string keys (its items in insertion order, keys
  distinct as in every Python dict).
\<close>

datatype json =
    JNull
  | JBool bool
  | JNum rat
  | JStr string
  | JArr "json list"
  | JObj "(string \<times> json) list"

datatype py_error =
    TypeError | AttributeError | ValueError | IndexError | KeyError | JSONDecodeError
  | CalledProcessError

text \<open>Python truthiness, as used by \<open>if x\<close>, \<open>not x\<close> and \<open>a or b\<close>.\<close>

fun truthy :: "json \<Rightarrow> bool" where
  "truthy JNull = False"
| "truthy (JBool b) = b"
| "truthy (JNum n) = (n \<noteq> 0)"
| "truthy (JStr s) = (s \<noteq> [])"
| "truthy (JArr xs) = (xs \<noteq> [])"
| "truthy (JObj kvs) = (kvs \<noteq> [])"

text \<open>\<open>d.get(k)\<close>: the value, or \<open>None\<close> when the key is absent.\<close>

definition dict_get :: "(string \<times> json) list \<Rightarrow> string \<Rightarrow> json" where
  "dict_get d k = (case map_of d k of None \<Rightarrow> JNull | Some v \<Rightarrow> v)"

definition py_or :: "json \<Rightarrow> json \<Rightarrow> json" where
  "py_or a b = (if truthy a then a else b)"

text \<open>Lists and dicts are unhashable: \<open>set(xs)\<close> raises TypeError on them.\<close>

fun hashable :: "json \<Rightarrow> bool" where
  "hashable (JArr xs) = False"
| "hashable (JObj kvs) = False"
| "hashable v = True"

text \<open>
  \<open>for f in v\<close>: a list yields its elements, a str its one-character strings, a dict
  its keys; anything else is not iterable.
\<close>

fun py_iter :: "json \<Rightarrow> py_error + json list" where
  "py_iter (JArr xs) = Inr xs"
| "py_iter (JStr s) = Inr (map (\<lambda>c. JStr [c]) s)"
| "py_iter (JObj d) = Inr (map (\<lambda>kv. JStr (fst kv)) d)"
| "py_iter v = Inl TypeError"

text \<open>A list comprehension whose element expression may raise: the first raise wins.\<close>

fun comprehension :: "('a \<Rightarrow> py_error + 'b) \<Rightarrow> 'a list \<Rightarrow> py_error + 'b list" where
  "comprehension f [] = Inr []"
| "comprehension f (x # xs) =
     (case f x of
        Inl e \<Rightarrow> Inl e
      | Inr y \<Rightarrow> (case comprehension f xs of Inl e \<Rightarrow> Inl e | Inr ys \<Rightarrow> Inr (y # ys)))"

section \<open>Context Precision: \<open>scripts/calculate_cp.py\<close>\<close>

record prompt =
  p_id :: "int option"
  p_timestamp :: json
  p_workspace_path :: "string option"
  context_files_json :: json

text \<open>\<open>f.get('path') or f.get('fileName')\<close>; only a dict has \<open>get\<close>.\<close>

fun path_or_fileName :: "json \<Rightarrow> py_error + json" where
  "path_or_fileName (JObj d) = Inr (py_or (dict_get d ''path'') (dict_get d ''fileName''))"
| "path_or_fileName v = Inl AttributeError"

text \<open>\<open>f if isinstance(f, str) else f.get('path') or f.get('fileName')\<close>\<close>

fun str_or_path :: "json \<Rightarrow> py_error + json" where
  "str_or_path (JStr s) = Inr (JStr s)"
| "str_or_path v = path_or_fileName v"

definition iter_comprehension :: "(json \<Rightarrow> py_error + json) \<Rightarrow> json \<Rightarrow> py_error + json list" where
  "iter_comprehension f v =
     (case py_iter v of Inl e \<Rightarrow> Inl e | Inr xs \<Rightarrow> comprehension f xs)"

text \<open>The \<open>isinstance\<close> chain of \<open>extract_context_files\<close> on the decoded context.\<close>

fun files_of_context :: "json \<Rightarrow> py_error + json list" where
  "files_of_context (JArr xs) = comprehension str_or_path xs"
| "files_of_context (JObj d) =
     (if ''attachedFiles'' \<in> fst ` set d
        then iter_comprehension path_or_fileName (dict_get d ''attachedFiles'')
      else if ''codebaseFiles'' \<in> fst ` set d
        then iter_comprehension path_or_fileName (dict_get d ''codebaseFiles'')
      else if ''files'' \<in> fst ` set d
        then iter_comprehension str_or_path (dict_get d ''files'')
      else Inr [])"
| "files_of_context v = Inr []"

text \<open>
  \<open>json.loads\<close> is library code: it is the parameter \<open>loads\<close>, \<open>None\<close> when it raises.
  Every exception inside the \<open>try\<close> gives the empty list.
\<close>

definition decode_context :: "(string \<Rightarrow> json option) \<Rightarrow> json \<Rightarrow> py_error + json" where
  "decode_context loads v =
     (case v of
        JStr s \<Rightarrow> (case loads s of None \<Rightarrow> Inl JSONDecodeError | Some c \<Rightarrow> Inr c)
      | _ \<Rightarrow> Inr v)"

definition extract_context_files :: "(string \<Rightarrow> json option) \<Rightarrow> prompt \<Rightarrow> json list" where
  "extract_context_files loads p =
     (if \<not> truthy (context_files_json p) then []
      else case decode_context loads (context_files_json p) of
             Inl e \<Rightarrow> []
           | Inr context \<Rightarrow>
               (case files_of_context context of
                  Inl e \<Rightarrow> []
                | Inr files \<Rightarrow> filter truthy files))"

text \<open>
  The result dict of \<open>calculate_cp\<close>. The keys \<open>timestamp\<close> and \<open>intersection\<close> exist
  only on the non-empty path: \<open>None\<close> is an absent key. \<open>cp\<close> is the quotient of two
  list lengths, modelled by its exact value.
\<close>

record cp_record =
  r_prompt_id :: "int option"
  r_timestamp :: "json option"
  cp :: rat
  context_file_count :: nat
  diff_file_count :: nat
  intersection_count :: nat
  context_files :: "json list"
  diff_files :: "string list"
  intersection :: "json list option"
  unused_context_files :: "json list"

text \<open>\<open>f in diff_set\<close>, the diff files being strings.\<close>

fun in_diff_set :: "string list \<Rightarrow> json \<Rightarrow> bool" where
  "in_diff_set D (JStr s) = (s \<in> set D)"
| "in_diff_set D v = False"

definition calculate_cp :: "(string \<Rightarrow> json option) \<Rightarrow> prompt \<Rightarrow> string list \<Rightarrow> py_error + cp_record" where
  "calculate_cp loads p D =
     (let C = extract_context_files loads p in
      if C = [] then
        Inr \<lparr> r_prompt_id = p_id p, r_timestamp = None, cp = 0,
              context_file_count = 0, diff_file_count = length D,
              intersection_count = 0, context_files = [], diff_files = D,
              intersection = None, unused_context_files = [] \<rparr>
      else if \<not> list_all hashable C then Inl TypeError
      else
        let inter = filter (in_diff_set D) C;
            unused = filter (\<lambda>f. \<not> in_diff_set D f) C
        in Inr \<lparr> r_prompt_id = p_id p, r_timestamp = Some (p_timestamp p),
                 cp = of_nat (length inter) / of_nat (length C),
                 context_file_count = length C, diff_file_count = length D,
                 intersection_count = length inter, context_files = C, diff_files = D,
                 intersection = Some inter, unused_context_files = unused \<rparr>)"

text \<open>
  The formula in the words of the specification: the size of the set intersection
  over the size of the context set.
\<close>

definition cp_spec :: "json list \<Rightarrow> string list \<Rightarrow> rat" where
  "cp_spec C D = of_nat (card (set C \<inter> JStr ` set D)) / of_nat (card (set C))"

subsection \<open>The store, as far as the calculator reads it\<close>

text \<open>
  \<open>DatabaseConnector\<close> runs SQL; its results are taken as given. \<open>db_prompts\<close> is the
  \<open>prompts\<close> table in the order of \<open>ORDER BY timestamp ASC\<close>, and
  \<open>db_entries_for_prompt\<close> the rows that \<open>get_entries_for_prompt\<close> returns for a
  prompt id with the configured time window.
\<close>

record entry =
  file_path :: "string option"

record db =
  db_prompts :: "prompt list"
  db_entries_for_prompt :: "int option \<Rightarrow> entry list"

text \<open>\<open>get_prompts\<close>: the workspace filter and the \<open>LIMIT\<close> apply only to truthy arguments.\<close>

definition get_prompts :: "db \<Rightarrow> string option \<Rightarrow> nat option \<Rightarrow> prompt list" where
  "get_prompts d workspace_path limit =
     (let rows = (case workspace_path of
                    None \<Rightarrow> db_prompts d
                  | Some w \<Rightarrow> if w = [] then db_prompts d
                             else filter (\<lambda>p. p_workspace_path p = Some w) (db_prompts d))
      in case limit of
           None \<Rightarrow> rows
         | Some n \<Rightarrow> if n = 0 then rows else take n rows)"

text \<open>\<open>[e.get('file_path') for e in diff_files_data if e.get('file_path')]\<close>\<close>

fun diff_files_of :: "entry list \<Rightarrow> string list" where
  "diff_files_of [] = []"
| "diff_files_of (e # es) =
     (case file_path e of
        None \<Rightarrow> diff_files_of es
      | Some s \<Rightarrow> if s = [] then diff_files_of es else s # diff_files_of es)"

subsection \<open>Baseline statistics\<close>

text \<open>
  The result dict of \<open>calculate_baseline_cp\<close>; the key \<open>records\<close> is absent on the
  empty path and \<open>distribution\<close> is a dict from bucket name to count. Scores are
  modelled by their exact values, the bucket bounds \<open>0.2\<close>, \<open>0.4\<close>, ... by the
  fractions they denote.
\<close>

record baseline =
  average :: rat
  median :: rat
  min_score :: rat
  max_score :: rat
  count :: nat
  distribution :: "(string \<times> nat) list"
  records :: "cp_record list option"

definition py_min :: "rat list \<Rightarrow> rat" where
  "py_min xs = fold min (tl xs) (hd xs)"

definition py_max :: "rat list \<Rightarrow> rat" where
  "py_max xs = fold max (tl xs) (hd xs)"

definition median_of :: "rat list \<Rightarrow> rat" where
  "median_of cp_scores =
     (let cp_scores_sorted = sort cp_scores;
          n = length cp_scores_sorted;
          m = (if n > 0 then cp_scores_sorted ! (n div 2) else 0)
      in if n mod 2 = 0 \<and> n > 1
         then (cp_scores_sorted ! (n div 2 - 1) + cp_scores_sorted ! (n div 2)) / 2
         else m)"

definition bucket_count :: "(rat \<Rightarrow> bool) \<Rightarrow> rat list \<Rightarrow> nat" where
  "bucket_count P cp_scores = length (filter P cp_scores)"

definition distribution_of :: "rat list \<Rightarrow> (string \<times> nat) list" where
  "distribution_of cp_scores =
     [(''0.0-0.2'', bucket_count (\<lambda>c. 0 \<le> c \<and> c < 1/5) cp_scores),
      (''0.2-0.4'', bucket_count (\<lambda>c. 1/5 \<le> c \<and> c < 2/5) cp_scores),
      (''0.4-0.6'', bucket_count (\<lambda>c. 2/5 \<le> c \<and> c < 3/5) cp_scores),
      (''0.6-0.8'', bucket_count (\<lambda>c. 3/5 \<le> c \<and> c < 4/5) cp_scores),
      (''0.8-1.0'', bucket_count (\<lambda>c. 4/5 \<le> c \<and> c \<le> 1) cp_scores)]"

text \<open>The part of \<open>calculate_baseline_cp\<close> after the loop over the prompts.\<close>

definition baseline_stats :: "cp_record list \<Rightarrow> baseline" where
  "baseline_stats cp_records =
     (let cp_scores = map cp cp_records in
      if cp_scores = [] then
        \<lparr> average = 0, median = 0, min_score = 0, max_score = 0, count = 0,
          distribution = [], records = None \<rparr>
      else
        \<lparr> average = sum_list cp_scores / of_nat (length cp_scores),
          median = median_of cp_scores,
          min_score = py_min cp_scores,
          max_score = py_max cp_scores,
          count = length cp_scores,
          distribution = distribution_of cp_scores,
          records = Some cp_records \<rparr>)"

definition calculate_baseline_cp ::
  "(string \<Rightarrow> json option) \<Rightarrow> db \<Rightarrow> string option \<Rightarrow> nat option \<Rightarrow> py_error + baseline" where
  "calculate_baseline_cp loads d workspace_path limit =
     (case comprehension
             (\<lambda>p. calculate_cp loads p (diff_files_of (db_entries_for_prompt d (p_id p))))
             (get_prompts d workspace_path limit) of
        Inl e \<Rightarrow> Inl e
      | Inr cp_records \<Rightarrow> Inr (baseline_stats cp_records))"

subsection \<open>The command line\<close>

record args =
  a_workspace :: "string option"
  a_prompt_id :: "int option"
  a_baseline :: bool
  a_limit :: nat
  a_output :: "string option"

text \<open>
  What a run of \<open>main\<close> ends with: exit code 1 after a message on stderr (the message
  by its content), an uncaught exception, or the result written to \<open>--output\<close> or
  stdout.
\<close>

datatype cli_message = ConnectFailed | PromptNotFound int | NoModeFlag

datatype cli_result = CpResult cp_record | BaselineResult baseline

datatype outcome =
    Exit1 cli_message
  | Raised py_error
  | Written "string option" cli_result

text \<open>\<open>next((p for p in prompts if p.get('id') == prompt_id), None)\<close>\<close>

definition find_prompt :: "int \<Rightarrow> prompt list \<Rightarrow> prompt option" where
  "find_prompt i prompts = List.find (\<lambda>p. p_id p = Some i) prompts"

text \<open>\<open>connect\<close> is \<open>None\<close> when \<open>DatabaseConnector()\<close> raises.\<close>

definition main_cp :: "(string \<Rightarrow> json option) \<Rightarrow> db option \<Rightarrow> args \<Rightarrow> outcome" where
  "main_cp loads connect a =
     (case connect of
        None \<Rightarrow> Exit1 ConnectFailed
      | Some d \<Rightarrow>
          (if a_prompt_id a \<noteq> None \<and> a_prompt_id a \<noteq> Some 0 then
             (let i = the (a_prompt_id a);
                  prompts = get_prompts d None (Some 1)
              in case find_prompt i prompts of
                   None \<Rightarrow> Exit1 (PromptNotFound i)
                 | Some p \<Rightarrow>
                     (case calculate_cp loads p
                             (diff_files_of (db_entries_for_prompt d (Some i))) of
                        Inl e \<Rightarrow> Raised e
                      | Inr r \<Rightarrow> Written (a_output a) (CpResult r)))
           else if a_baseline a then
             (case calculate_baseline_cp loads d (a_workspace a) (Some (a_limit a)) of
                Inl e \<Rightarrow> Raised e
              | Inr b \<Rightarrow> Written (a_output a) (BaselineResult b))
           else Exit1 NoModeFlag))"

section \<open>Concrete prompts and stores\<close>

text \<open>A decoder that accepts no text, for prompts whose context is already decoded.\<close>

definition no_loads :: "string \<Rightarrow> json option" where
  "no_loads s = None"

text \<open>A prompt row with id 1 whose context is the given list.\<close>

definition list_prompt :: "json list \<Rightarrow> prompt" where
  "list_prompt fs = \<lparr> p_id = Some 1, p_timestamp = JNull, p_workspace_path = None,
      context_files_json = JArr fs \<rparr>"

subsection \<open>Well-formed context payloads\<close>

text \<open>
  The flat list of path strings of a payload, in the words of the specification. An
  entry that is a non-empty string names that path. An object entry names its \<open>path\<close>
  when that is a non-empty string and otherwise its \<open>fileName\<close> when that is one. Any
  other entry, a null one included, names no path and is dropped.
\<close>

fun text_value :: "json option \<Rightarrow> string option" where
  "text_value (Some (JStr s)) = (if s = [] then None else Some s)"
| "text_value v = None"

fun entry_path :: "json \<Rightarrow> string option" where
  "entry_path (JStr s) = (if s = [] then None else Some s)"
| "entry_path (JObj d) =
     (case text_value (map_of d ''path'') of
        Some s \<Rightarrow> Some s
      | None \<Rightarrow> text_value (map_of d ''fileName''))"
| "entry_path v = None"

definition path_strings :: "json list \<Rightarrow> json list" where
  "path_strings entries = map JStr (List.map_filter entry_path entries)"

text \<open>
  The entries the code normalises: an object whose \<open>path\<close> and \<open>fileName\<close> are each
  absent, null or a string, and, in a plain list or under \<open>files\<close>, also a string.
\<close>

fun path_field :: "json option \<Rightarrow> bool" where
  "path_field None = True"
| "path_field (Some JNull) = True"
| "path_field (Some (JStr s)) = True"
| "path_field v = False"

fun obj_entry :: "json \<Rightarrow> bool" where
  "obj_entry (JObj d) = (path_field (map_of d ''path'') \<and> path_field (map_of d ''fileName''))"
| "obj_entry v = False"

fun file_entry :: "json \<Rightarrow> bool" where
  "file_entry (JStr s) = True"
| "file_entry v = obj_entry v"

text \<open>The prompt of the attached-files scenario.\<close>

definition attached_prompt :: prompt where
  "attached_prompt = \<lparr> p_id = Some 7, p_timestamp = JStr ''2024-01-01T00:00:00Z'',
      p_workspace_path = None,
      context_files_json =
        JObj [(''attachedFiles'',
               JArr [JObj [(''path'', JStr ''a.py'')], JObj [(''path'', JStr ''b.py'')]])] \<rparr>"

text \<open>A prompt whose context is a \<open>files\<close> object mixing the entry shapes.\<close>

definition files_entries :: "json list" where
  "files_entries = [JStr ''m.py'', JStr [], JObj [(''path'', JNull), (''fileName'', JStr ''n.py'')]]"

definition files_prompt :: prompt where
  "files_prompt = \<lparr> p_id = Some 8, p_timestamp = JNull, p_workspace_path = None,
      context_files_json = JObj [(''files'', JArr files_entries)] \<rparr>"

text \<open>A prompt whose \<open>attachedFiles\<close> are plain strings.\<close>

definition attached_strings_prompt :: prompt where
  "attached_strings_prompt = \<lparr> p_id = Some 9, p_timestamp = JNull, p_workspace_path = None,
      context_files_json = JObj [(''attachedFiles'', JArr [JStr ''a.py'', JStr ''b.py''])] \<rparr>"

text \<open>A result record carrying a given score, for exercising the statistics.\<close>

definition score_record :: "rat \<Rightarrow> cp_record" where
  "score_record c = \<lparr> r_prompt_id = None, r_timestamp = None, cp = c,
      context_file_count = 5, diff_file_count = 0, intersection_count = 0,
      context_files = [], diff_files = [], intersection = None,
      unused_context_files = [] \<rparr>"

text \<open>A store without prompts, and a store with the prompts 1 and 2 in timestamp order.\<close>

definition empty_db :: db where
  "empty_db = \<lparr> db_prompts = [], db_entries_for_prompt = (\<lambda>i. []) \<rparr>"

definition two_prompt_db :: db where
  "two_prompt_db =
     \<lparr> db_prompts =
         [\<lparr> p_id = Some 1, p_timestamp = JStr ''2024-01-01T00:00:00Z'',
            p_workspace_path = Some ''/w'', context_files_json = JArr [JStr ''a.py''] \<rparr>,
          \<lparr> p_id = Some 2, p_timestamp = JStr ''2024-01-02T00:00:00Z'',
            p_workspace_path = Some ''/w'', context_files_json = JArr [JStr ''b.py''] \<rparr>],
       db_entries_for_prompt = (\<lambda>i. [\<lparr> file_path = Some ''b.py'' \<rparr>]) \<rparr>"

definition prompt_id_args :: "int \<Rightarrow> args" where
  "prompt_id_args i = \<lparr> a_workspace = None, a_prompt_id = Some i, a_baseline = False,
      a_limit = 1000, a_output = None \<rparr>"

section \<open>Event vectorisation: \<open>vectorizer.py\<close>\<close>

text \<open>
  A database column holds \<open>NULL\<close>, text or a number. An event is a row of the join of
  \<open>events\<close> with \<open>prompts\<close>: every column is present in the row, possibly \<open>NULL\<close>. Only
  for \<open>timestamp\<close> does the code give a default for an absent key, so only there is
  an absent key (\<open>None\<close>) told apart from \<open>NULL\<close>.
\<close>

datatype dbval = DNull | DText string | DNum rat

fun db_truthy :: "dbval \<Rightarrow> bool" where
  "db_truthy DNull = False"
| "db_truthy (DText s) = (s \<noteq> [])"
| "db_truthy (DNum n) = (n \<noteq> 0)"

record event =
  e_id :: dbval
  e_type :: "string option"
  e_timestamp :: "dbval option"
  e_session_id :: "string option"
  e_workspace_path :: "string option"
  e_prompt_id :: dbval
  e_prompt_text :: "string option"

text \<open>
  The state of an \<open>EventVectorizer\<close>: the type encoder, the local embedding model if
  one was loaded (its \<open>encode\<close>, \<open>None\<close> when it raises) and the embedding cache, keyed
  by \<open>hash(text)\<close>.
\<close>

record vectorizer =
  event_type_map :: "(string \<times> nat) list"
  embedding_model :: "(string \<Rightarrow> rat list option) option"
  embedding_cache :: "int \<rightharpoonup> rat list"

text \<open>
  The configuration and the remote providers. \<open>_embed_via_openrouter\<close> and
  \<open>_embed_via_huggingface\<close> catch every exception and return \<open>None\<close>; the HTTP calls
  themselves and Python's \<open>hash\<close> are given.
\<close>

record embed_env =
  embedding_service :: string
  openrouter_api_key :: string
  hf_token :: string
  has_requests :: bool
  embed_via_openrouter :: "string \<Rightarrow> rat list option"
  embed_via_huggingface :: "string \<Rightarrow> rat list option"
  py_hash :: "string \<Rightarrow> int"

text \<open>\<open>sorted(set(...))\<close> of the truthy event types, each with its position.\<close>

fun truthy_types :: "event list \<Rightarrow> string list" where
  "truthy_types [] = []"
| "truthy_types (e # es) =
     (case e_type e of
        None \<Rightarrow> truthy_types es
      | Some t \<Rightarrow> if t = [] then truthy_types es else t # truthy_types es)"

definition build_event_type_encoder :: "event list \<Rightarrow> (string \<times> nat) list" where
  "build_event_type_encoder events =
     (let event_types = sort (remdups (truthy_types events))
      in zip event_types [0 ..< length event_types])"

text \<open>
  \<open>one_hot_encode_event_type\<close>: an empty encoder gives the empty vector; writing at an
  index beyond the vector raises IndexError.
\<close>

definition one_hot_encode_event_type :: "vectorizer \<Rightarrow> string option \<Rightarrow> py_error + rat list" where
  "one_hot_encode_event_type vz event_type =
     (if event_type_map vz = [] then Inr []
      else
        let vector = replicate (length (event_type_map vz)) 0 in
        case event_type of
          None \<Rightarrow> Inr vector
        | Some t \<Rightarrow>
            (case map_of (event_type_map vz) t of
               None \<Rightarrow> Inr vector
             | Some i \<Rightarrow> if i < length vector then Inr (vector[i := 1]) else Inl IndexError))"

text \<open>The characters \<open>str.strip()\<close> removes, among those of one byte.\<close>

definition py_isspace :: "char \<Rightarrow> bool" where
  "py_isspace c = (of_char c \<in> {9, 10, 11, 12, 13, 28, 29, 30, 31, 32 :: nat})"

definition remote_embedding :: "embed_env \<Rightarrow> string \<Rightarrow> rat list option" where
  "remote_embedding env text =
     (if embedding_service env = ''openrouter'' \<and> openrouter_api_key env \<noteq> []
         \<and> has_requests env
        then embed_via_openrouter env text
      else if embedding_service env = ''huggingface'' \<and> hf_token env \<noteq> []
         \<and> has_requests env
        then embed_via_huggingface env text
      else None)"

definition embed_text :: "embed_env \<Rightarrow> vectorizer \<Rightarrow> string \<Rightarrow> rat list option \<times> vectorizer" where
  "embed_text env vz text =
     (if text = [] \<or> list_all py_isspace text then (None, vz)
      else
        let cache_key = py_hash env text in
        case embedding_cache vz cache_key of
          Some v \<Rightarrow> (Some v, vz)
        | None \<Rightarrow>
            (let local = (case embedding_model vz of None \<Rightarrow> None | Some encode \<Rightarrow> encode text);
                 embedding = (case local of None \<Rightarrow> remote_embedding env text | Some v \<Rightarrow> Some v)
             in case embedding of
                  None \<Rightarrow> (None, vz)
                | Some v \<Rightarrow> (Some v, vz\<lparr> embedding_cache := (embedding_cache vz)(cache_key \<mapsto> v) \<rparr>)))"

text \<open>The result dict of \<open>vectorize_event\<close>.\<close>

record vectorized_event =
  event_id :: dbval
  v_timestamp :: dbval
  event_type :: "string option"
  event_type_vector :: "rat list"
  v_prompt_text :: "string option"
  combined_vector :: "rat list"

text \<open>
  \<open>vectorize_event\<close> leaves \<open>prompt_embedding\<close> at \<open>None\<close> whatever the prompt text is
  (the branch for a given text is \<open>pass\<close>), so the combined vector always ends with the
  768 placeholder zeros.
\<close>

definition vectorize_event :: "vectorizer \<Rightarrow> event \<Rightarrow> string option \<Rightarrow> py_error + vectorized_event" where
  "vectorize_event vz ev prompt_text =
     (case one_hot_encode_event_type vz (e_type ev) of
        Inl e \<Rightarrow> Inl e
      | Inr etv \<Rightarrow>
          (let prompt_embedding = (None :: rat list option);
               combined = (case prompt_embedding of
                             Some emb \<Rightarrow> etv @ emb
                           | None \<Rightarrow> etv @ replicate 768 0)
           in Inr \<lparr> event_id = e_id ev,
                    v_timestamp = (case e_timestamp ev of None \<Rightarrow> DNull | Some t \<Rightarrow> t),
                    event_type = e_type ev,
                    event_type_vector = etv,
                    v_prompt_text = prompt_text,
                    combined_vector = combined \<rparr>))"

definition vectorize_sequence ::
  "vectorizer \<Rightarrow> event list \<Rightarrow> (dbval \<rightharpoonup> string option) \<Rightarrow> py_error + vectorized_event list" where
  "vectorize_sequence vz events prompts_map =
     comprehension
       (\<lambda>ev. vectorize_event vz ev
                (if db_truthy (e_prompt_id ev)
                 then (case prompts_map (e_prompt_id ev) of None \<Rightarrow> None | Some text \<Rightarrow> text)
                 else None))
       events"

section \<open>Sequence clustering: \<open>scripts/cluster_sequences.py\<close>\<close>

text \<open>
  The input is the shape that \<open>SequenceProcessor.cluster_sequences\<close> writes: each
  sequence a list of vectorised events. The clustering itself is done by tslearn and
  scikit-learn: scaling and \<open>fit_predict\<close> are given, as functions of the requested
  cluster count and the prepared array that return the labels or raise.
\<close>

datatype cluster_method = Dtw | Kmeans

record cluster_libs =
  has_tslearn :: bool
  dtw_fit_predict :: "int \<Rightarrow> rat list list list \<Rightarrow> py_error + int list"
  kmeans_fit_predict :: "int \<Rightarrow> rat list list \<Rightarrow> py_error + int list"

record cluster_args =
  c_method :: cluster_method
  c_n_clusters :: int
  c_min_size :: int

text \<open>\<open>max(len(s) for s in sequences)\<close> raises ValueError on an empty batch.\<close>

definition max_length_of :: "'a list list \<Rightarrow> py_error + nat" where
  "max_length_of sequences =
     (case sequences of
        [] \<Rightarrow> Inl ValueError
      | s # ss \<Rightarrow> Inr (fold max (map length ss) (length s)))"

text \<open>\<open>pad_sequences\<close>: a shorter sequence is padded with zero vectors as long as its first vector.\<close>

definition pad_one :: "nat \<Rightarrow> rat list list \<Rightarrow> py_error + rat list list" where
  "pad_one max_length seq =
     (if length seq < max_length then
        (case seq of
           [] \<Rightarrow> Inl IndexError
         | v # vs \<Rightarrow> Inr (seq @ replicate (max_length - length seq) (replicate (length v) 0)))
      else Inr (take max_length seq))"

definition pad_sequences :: "rat list list list \<Rightarrow> py_error + rat list list list" where
  "pad_sequences sequences =
     (case max_length_of sequences of
        Inl e \<Rightarrow> Inl e
      | Inr max_length \<Rightarrow> comprehension (pad_one max_length) sequences)"

definition cluster_with_dtw :: "cluster_libs \<Rightarrow> rat list list list \<Rightarrow> int \<Rightarrow> py_error + int list" where
  "cluster_with_dtw libs sequences n_clusters =
     (case pad_sequences sequences of
        Inl e \<Rightarrow> Inl e
      | Inr padded \<Rightarrow> dtw_fit_predict libs n_clusters padded)"

text \<open>The flattening loop of \<open>cluster_with_kmeans\<close>: concatenate, pad with zeros, cut.\<close>

definition flatten_one :: "nat \<Rightarrow> rat list list \<Rightarrow> rat list" where
  "flatten_one width seq =
     (let flat = concat seq
      in take width (flat @ replicate (width - length flat) 0))"

definition cluster_with_kmeans :: "cluster_libs \<Rightarrow> rat list list list \<Rightarrow> int \<Rightarrow> py_error + int list" where
  "cluster_with_kmeans libs sequences n_clusters =
     (case max_length_of sequences of
        Inl e \<Rightarrow> Inl e
      | Inr max_length \<Rightarrow>
          (case hd sequences of
             [] \<Rightarrow> Inl IndexError
           | v # vs \<Rightarrow>
               (let vector_dim = length v;
                    flattened = map (flatten_one (max_length * vector_dim)) sequences
                in kmeans_fit_predict libs n_clusters flattened)))"

text \<open>
  \<open>find_representative_sequence\<close>: the member whose length is closest to the mean
  length, the earlier one on a tie.
\<close>

definition seq_len :: "'a list list \<Rightarrow> nat \<Rightarrow> rat" where
  "seq_len all_sequences idx = of_nat (length (all_sequences ! idx))"

definition mean_length :: "'a list list \<Rightarrow> nat list \<Rightarrow> rat" where
  "mean_length all_sequences idxs =
     sum_list (map (seq_len all_sequences) idxs) / of_nat (length idxs)"

fun closest :: "'a list list \<Rightarrow> rat \<Rightarrow> nat \<times> rat \<Rightarrow> nat list \<Rightarrow> nat" where
  "closest all_sequences avg (best_idx, best_diff) [] = best_idx"
| "closest all_sequences avg (best_idx, best_diff) (idx # idxs) =
     (let diff = \<bar>seq_len all_sequences idx - avg\<bar>
      in if diff < best_diff
         then closest all_sequences avg (idx, diff) idxs
         else closest all_sequences avg (best_idx, best_diff) idxs)"

definition find_representative_sequence :: "nat list \<Rightarrow> 'a list list \<Rightarrow> nat option" where
  "find_representative_sequence cluster_sequences all_sequences =
     (case cluster_sequences of
        [] \<Rightarrow> None
      | first # rest \<Rightarrow>
          (let avg_length = mean_length all_sequences cluster_sequences
           in Some (closest all_sequences avg_length
                      (first, \<bar>seq_len all_sequences first - avg_length\<bar>) rest)))"

text \<open>
  \<open>extract_common_event_types\<close>: \<open>Counter(...).most_common(5)\<close> lists the types by
  falling count, equal counts in the order of first occurrence.
\<close>

fun types_of_events :: "vectorized_event list \<Rightarrow> string list" where
  "types_of_events [] = []"
| "types_of_events (ev # evs) =
     (case event_type ev of
        None \<Rightarrow> types_of_events evs
      | Some t \<Rightarrow> if t = [] then types_of_events evs else t # types_of_events evs)"

definition most_common :: "nat \<Rightarrow> string list \<Rightarrow> string list" where
  "most_common n xs =
     take n (sort_key (\<lambda>t. - int (count_list xs t)) (rev (remdups (rev xs))))"

definition extract_common_event_types :: "nat list \<Rightarrow> vectorized_event list list \<Rightarrow> string list" where
  "extract_common_event_types cluster_sequences all_sequences =
     most_common 5 (concat (map (\<lambda>idx. types_of_events (all_sequences ! idx)) cluster_sequences))"

text \<open>The entries of the behavioural library and the result that \<open>main\<close> prints.\<close>

record cluster_metadata =
  avg_length :: rat
  event_types :: "string list"

record cluster =
  cluster_id :: int
  frequency :: nat
  representative_sequence :: "vectorized_event list option"
  sequence_indices :: "nat list"
  metadata :: cluster_metadata

record cluster_output =
  o_method :: cluster_method
  o_n_clusters :: int
  o_min_size :: int
  total_sequences :: nat
  clusters_found :: nat
  cluster_assignments :: "int list"
  behavioral_library :: "cluster list"
  o_metadata :: json

text \<open>
  \<open>clusters[label].append(idx)\<close> over \<open>enumerate(labels)\<close>: a dict from label to the
  indices carrying it, labels in the order of their first occurrence.
\<close>

fun add_index :: "(int \<times> nat list) list \<Rightarrow> int \<Rightarrow> nat \<Rightarrow> (int \<times> nat list) list" where
  "add_index [] label idx = [(label, [idx])]"
| "add_index ((k, idxs) # cs) label idx =
     (if k = label then (k, idxs @ [idx]) # cs else (k, idxs) # add_index cs label idx)"

definition organize_clusters :: "int list \<Rightarrow> (int \<times> nat list) list" where
  "organize_clusters labels =
     fold (\<lambda>(idx, label) clusters. add_index clusters label idx) (List.enumerate 0 labels) []"

text \<open>One library entry; reading a sequence beyond the batch raises IndexError.\<close>

definition make_cluster :: "vectorized_event list list \<Rightarrow> int \<times> nat list \<Rightarrow> py_error + cluster" where
  "make_cluster all_sequences c =
     (case c of (cid, idxs) \<Rightarrow>
        if \<not> list_all (\<lambda>idx. idx < length all_sequences) idxs then Inl IndexError
        else
          let representative_idx = find_representative_sequence idxs all_sequences;
              representative = (case representative_idx of
                                  None \<Rightarrow> None
                                | Some i \<Rightarrow> Some (all_sequences ! i))
          in Inr \<lparr> cluster_id = cid,
                   frequency = length idxs,
                   representative_sequence = representative,
                   sequence_indices = idxs,
                   metadata = \<lparr> avg_length = mean_length all_sequences idxs,
                                event_types = extract_common_event_types idxs all_sequences \<rparr> \<rparr>)"

definition build_library ::
  "vectorized_event list list \<Rightarrow> int \<Rightarrow> int list \<Rightarrow> py_error + cluster list" where
  "build_library all_sequences min_size labels =
     comprehension (make_cluster all_sequences)
       (filter (\<lambda>c. int (length (snd c)) \<ge> min_size) (organize_clusters labels))"

text \<open>
  What a run of the script ends with: exit code 1 after "Clustering failed" with the
  caught exception, an exception raised outside the \<open>try\<close>, or the printed result.
\<close>

datatype cluster_outcome =
    ClusteringFailed py_error
  | Uncaught py_error
  | Clustered cluster_output

definition run_clusterer ::
  "cluster_libs \<Rightarrow> cluster_args \<Rightarrow> rat list list list \<Rightarrow> py_error + int list" where
  "run_clusterer libs a sequence_vectors =
     (if c_method a = Dtw \<and> has_tslearn libs
      then cluster_with_dtw libs sequence_vectors (c_n_clusters a)
      else cluster_with_kmeans libs sequence_vectors (c_n_clusters a))"

definition main_cluster ::
  "cluster_libs \<Rightarrow> cluster_args \<Rightarrow> vectorized_event list list \<Rightarrow> json \<Rightarrow> cluster_outcome" where
  "main_cluster libs a sequences input_metadata =
     (let all_sequences = sequences;
          sequence_vectors = map (map combined_vector) sequences
      in case run_clusterer libs a sequence_vectors of
           Inl e \<Rightarrow> ClusteringFailed e
         | Inr labels \<Rightarrow>
             (case build_library all_sequences (c_min_size a) labels of
                Inl e \<Rightarrow> Uncaught e
              | Inr library \<Rightarrow>
                  Clustered \<lparr> o_method = c_method a,
                              o_n_clusters = c_n_clusters a,
                              o_min_size = c_min_size a,
                              total_sequences = length sequences,
                              clusters_found = length library,
                              cluster_assignments = labels,
                              behavioral_library = library,
                              o_metadata = input_metadata \<rparr>))"

section \<open>The sequence processor: \<open>sequence_processor.py\<close>\<close>

text \<open>\<open>event.get('session_id') or 'default'\<close>\<close>

definition session_of :: "event \<Rightarrow> string" where
  "session_of ev =
     (case e_session_id ev of
        None \<Rightarrow> ''default''
      | Some s \<Rightarrow> if s = [] then ''default'' else s)"

fun add_event :: "(string \<times> event list) list \<Rightarrow> event \<Rightarrow> (string \<times> event list) list" where
  "add_event [] ev = [(session_of ev, [ev])]"
| "add_event ((k, evs) # gs) ev =
     (if k = session_of ev then (k, evs @ [ev]) # gs else (k, evs) # add_event gs ev)"

definition sequences_by_session :: "event list \<Rightarrow> (string \<times> event list) list" where
  "sequences_by_session events = fold (\<lambda>ev groups. add_event groups ev) events []"

text \<open>
  The sort key \<open>e.get('timestamp', '')\<close>: the empty string for an absent key, the
  column value otherwise, \<open>NULL\<close> included.
\<close>

definition sort_key_of :: "event \<Rightarrow> dbval" where
  "sort_key_of ev = (case e_timestamp ev of None \<Rightarrow> DText [] | Some t \<Rightarrow> t)"

fun is_text :: "dbval \<Rightarrow> bool" where
  "is_text (DText s) = True"
| "is_text v = False"

fun is_num :: "dbval \<Rightarrow> bool" where
  "is_num (DNum n) = True"
| "is_num v = False"

fun text_of :: "dbval \<Rightarrow> string" where
  "text_of (DText s) = s"
| "text_of v = []"

fun num_of :: "dbval \<Rightarrow> rat" where
  "num_of (DNum n) = n"
| "num_of v = 0"

text \<open>
  \<open>session_events.sort(key=...)\<close>. Python orders text with text and numbers with
  numbers; \<open>None\<close> is ordered with nothing and text is not ordered with numbers. A
  list of fewer than two events is not compared at all; a longer one is sorted stably
  when its keys are all text or all numbers, and otherwise some comparison raises
  TypeError (each element of a sort takes part in a comparison, and a sort of two kinds
  of keys has to compare across the kinds).
\<close>

definition sort_session :: "event list \<Rightarrow> py_error + event list" where
  "sort_session session_events =
     (if length session_events < 2 then Inr session_events
      else if list_all (\<lambda>ev. is_text (sort_key_of ev)) session_events
        then Inr (sort_key (\<lambda>ev. text_of (sort_key_of ev)) session_events)
      else if list_all (\<lambda>ev. is_num (sort_key_of ev)) session_events
        then Inr (sort_key (\<lambda>ev. num_of (sort_key_of ev)) session_events)
      else Inl TypeError)"

text \<open>
  \<open>extract_sequences\<close>, on the rows that \<open>get_events_with_prompts\<close> returned: every
  session is sorted, in the order the sessions first occur, and kept when its length is
  within the bounds.
\<close>

fun sort_and_filter :: "nat \<Rightarrow> nat \<Rightarrow> event list list \<Rightarrow> py_error + event list list" where
  "sort_and_filter lo hi [] = Inr []"
| "sort_and_filter lo hi (session_events # rest) =
     (case sort_session session_events of
        Inl e \<Rightarrow> Inl e
      | Inr sorted_events \<Rightarrow>
          (case sort_and_filter lo hi rest of
             Inl e \<Rightarrow> Inl e
           | Inr sequences \<Rightarrow>
               if lo \<le> length sorted_events \<and> length sorted_events \<le> hi
               then Inr (sorted_events # sequences)
               else Inr sequences))"

definition extract_sequences :: "event list \<Rightarrow> nat \<Rightarrow> nat \<Rightarrow> py_error + event list list" where
  "extract_sequences events min_sequence_length max_sequence_length =
     sort_and_filter min_sequence_length max_sequence_length
       (map snd (sequences_by_session events))"

text \<open>The entries of \<open>vectorize_sequences\<close>' result.\<close>

record seq_metadata =
  m_session_id :: "string option"
  m_workspace_path :: "string option"
  m_length :: nat
  m_timestamp_range :: "dbval \<times> dbval"

record vectorized_sequence =
  vs_sequence :: "vectorized_event list"
  vs_metadata :: seq_metadata

text \<open>\<open>prompts_map[prompt_id] = {'text': ...}\<close> for every event with a truthy prompt id.\<close>

definition add_prompt :: "event \<Rightarrow> (dbval \<rightharpoonup> string option) \<Rightarrow> (dbval \<rightharpoonup> string option)" where
  "add_prompt ev prompts_map =
     (if db_truthy (e_prompt_id ev)
      then prompts_map(e_prompt_id ev \<mapsto> e_prompt_text ev)
      else prompts_map)"

definition timestamp_of :: "event \<Rightarrow> dbval" where
  "timestamp_of ev = (case e_timestamp ev of None \<Rightarrow> DNull | Some t \<Rightarrow> t)"

definition metadata_of :: "event list \<Rightarrow> seq_metadata" where
  "metadata_of seq =
     (case seq of
        [] \<Rightarrow> \<lparr> m_session_id = None, m_workspace_path = None, m_length = 0,
                m_timestamp_range = (DNull, DNull) \<rparr>
      | ev # evs \<Rightarrow>
          \<lparr> m_session_id = e_session_id ev, m_workspace_path = e_workspace_path ev,
            m_length = length seq,
            m_timestamp_range = (timestamp_of ev, timestamp_of (last seq)) \<rparr>)"

text \<open>
  \<open>vectorize_sequences\<close> rebuilds the encoder from all events of the batch, so it
  returns the vectoriser's new state with its result.
\<close>

definition vectorize_sequences ::
  "vectorizer \<Rightarrow> event list list \<Rightarrow> (py_error + vectorized_sequence list) \<times> vectorizer" where
  "vectorize_sequences vz sequences =
     (let all_events = concat sequences;
          vz' = vz\<lparr> event_type_map := build_event_type_encoder all_events \<rparr>;
          prompts_map = fold add_prompt all_events Map.empty
      in (comprehension
            (\<lambda>seq. case vectorize_sequence vz' seq prompts_map of
                      Inl e \<Rightarrow> Inl e
                    | Inr vectorized \<Rightarrow>
                        Inr \<lparr> vs_sequence = vectorized, vs_metadata = metadata_of seq \<rparr>)
            sequences,
          vz'))"

text \<open>
  A \<open>SequenceProcessor\<close>: the rows the store returns for a workspace filter, the
  vectoriser, and the clustering script run as a subprocess on the vectorised
  sequences, whose printed result is decoded or whose failure is raised.
\<close>

record sequence_processor =
  sp_events :: "string option \<Rightarrow> event list"
  sp_vectorizer :: vectorizer
  sp_cluster :: "vectorized_event list list \<Rightarrow> py_error + cluster_output"

text \<open>The values of the dict that \<open>build_behavioral_library\<close> returns.\<close>

datatype lib_value =
    VText string
  | VPath "string option"
  | VCount nat
  | VClusters "cluster list"
  | VMetadata json

text \<open>
  The loop over the clusters computes nothing but reads \<open>vectorized[seq_idx]\<close> for every
  member index, which raises IndexError beyond the batch.
\<close>

definition indices_in_range :: "nat \<Rightarrow> cluster list \<Rightarrow> bool" where
  "indices_in_range n library =
     list_all (\<lambda>c. list_all (\<lambda>seq_idx. seq_idx < n) (sequence_indices c)) library"

definition build_behavioral_library ::
  "sequence_processor \<Rightarrow> string option \<Rightarrow> py_error + (string \<times> lib_value) list" where
  "build_behavioral_library sp workspace_path =
     (case extract_sequences (sp_events sp workspace_path) 3 50 of
        Inl e \<Rightarrow> Inl e
      | Inr sequences \<Rightarrow>
          if sequences = [] then
            Inr [(''error'', VText ''No sequences found''), (''library'', VClusters [])]
          else
            (case fst (vectorize_sequences (sp_vectorizer sp) sequences) of
               Inl e \<Rightarrow> Inl e
             | Inr vectorized \<Rightarrow>
                 (case sp_cluster sp (map vs_sequence vectorized) of
                    Inl e \<Rightarrow> Inl e
                  | Inr clustering_result \<Rightarrow>
                      if \<not> indices_in_range (length vectorized)
                             (behavioral_library clustering_result)
                      then Inl IndexError
                      else
                        Inr [(''workspace_path'', VPath workspace_path),
                             (''total_sequences'', VCount (length sequences)),
                             (''clusters_found'',
                                VCount (length (behavioral_library clustering_result))),
                             (''behavioral_library'',
                                VClusters (behavioral_library clustering_result)),
                             (''clustering_metadata'',
                                VMetadata (o_metadata clustering_result))])))"

text \<open>
  The shape the specification gives an empty Behavioral Library: the five keys of the
  artifact, with \<open>clusters_found = 0\<close>.
\<close>

definition empty_library_spec :: "(string \<times> lib_value) list \<Rightarrow> bool" where
  "empty_library_spec lib =
     (map fst lib = [''workspace_path'', ''total_sequences'', ''clusters_found'',
                     ''behavioral_library'', ''clustering_metadata'']
      \<and> map_of lib ''clusters_found'' = Some (VCount 0))"

section \<open>Notions used in the statements\<close>

text \<open>The positions of a batch that carry a given label, in rising order.\<close>

definition members :: "int list \<Rightarrow> int \<Rightarrow> nat list" where
  "members labels k = filter (\<lambda>j. labels ! j = k) [0 ..< length labels]"

text \<open>The distinct elements of a list in the order of their first occurrence.\<close>

definition first_occurrences :: "'a list \<Rightarrow> 'a list" where
  "first_occurrences xs = rev (remdups (rev xs))"

text \<open>The timestamp text an event is sorted by when its timestamp is text or absent.\<close>

definition timestamp_text :: "event \<Rightarrow> string" where
  "timestamp_text ev = text_of (sort_key_of ev)"

section \<open>Concrete events and processors\<close>

definition session_event :: "string \<Rightarrow> dbval option \<Rightarrow> event" where
  "session_event i ts = \<lparr> e_id = DText i, e_type = Some ''edit'', e_timestamp = ts,
      e_session_id = Some ''s1'', e_workspace_path = Some ''/w'',
      e_prompt_id = DNull, e_prompt_text = None \<rparr>"

text \<open>A session of three events whose second timestamp is \<open>NULL\<close>, and the same with the key absent.\<close>

definition null_timestamp_events :: "event list" where
  "null_timestamp_events =
     [session_event ''e1'' (Some (DText ''2024-01-02'')),
      session_event ''e2'' (Some DNull),
      session_event ''e3'' (Some (DText ''2024-01-01''))]"

definition absent_timestamp_events :: "event list" where
  "absent_timestamp_events =
     [session_event ''e1'' (Some (DText ''2024-01-02'')),
      session_event ''e2'' None,
      session_event ''e3'' (Some (DText ''2024-01-01''))]"

definition plain_vectorizer :: vectorizer where
  "plain_vectorizer = \<lparr> event_type_map = [], embedding_model = None,
      embedding_cache = Map.empty \<rparr>"

text \<open>A processor over a store without events; its clustering step is never reached.\<close>

definition idle_processor :: sequence_processor where
  "idle_processor = \<lparr> sp_events = (\<lambda>w. []), sp_vectorizer = plain_vectorizer,
      sp_cluster = (\<lambda>vs. Inl CalledProcessError) \<rparr>"

text \<open>An environment whose remote provider answers every text with the embedding \<open>[1, 2]\<close>.\<close>

definition answering_env :: embed_env where
  "answering_env = \<lparr> embedding_service = ''openrouter'', openrouter_api_key = ''key'',
      hf_token = [], has_requests = True,
      embed_via_openrouter = (\<lambda>text. Some [1, 2]),
      embed_via_huggingface = (\<lambda>text. None),
      py_hash = (\<lambda>text. int (length text)) \<rparr>"

text \<open>The part of a combined vector after the one-hot sub-vector.\<close>

definition semantic_part :: "vectorized_event \<Rightarrow> rat list" where
  "semantic_part v = drop (length (event_type_vector v)) (combined_vector v)"

section \<open>Concrete clustering runs\<close>

definition tiny_event :: vectorized_event where
  "tiny_event = \<lparr> event_id = DText ''e1'', v_timestamp = DNull, event_type = Some ''edit'',
      event_type_vector = [1], v_prompt_text = None, combined_vector = [1, 0] \<rparr>"

text \<open>Libraries without tslearn whose k-means answers with the given labels.\<close>

definition fixed_libs :: "int list \<Rightarrow> cluster_libs" where
  "fixed_libs labels = \<lparr> has_tslearn = False,
      dtw_fit_predict = (\<lambda>n x. Inl ValueError),
      kmeans_fit_predict = (\<lambda>n x. Inr labels) \<rparr>"

definition kmeans_args :: "int \<Rightarrow> int \<Rightarrow> cluster_args" where
  "kmeans_args n m = \<lparr> c_method = Kmeans, c_n_clusters = n, c_min_size = m \<rparr>"

definition four_sequences :: "vectorized_event list list" where
  "four_sequences = [[tiny_event], [tiny_event], [tiny_event], [tiny_event, tiny_event]]"

section \<open>Verified properties\<close>

subsection \<open>Context precision of one prompt\<close>

lemma extract_context_files_truthy:
  "f \<in> set (extract_context_files loads p) \<Longrightarrow> truthy f"
  by (auto simp: extract_context_files_def split: sum.splits if_splits)

lemma in_diff_set_image: "{x. in_diff_set D x} = JStr ` set D"
proof (rule set_eqI)
  fix x show "x \<in> {x. in_diff_set D x} \<longleftrightarrow> x \<in> JStr ` set D"
    by (cases x) auto
qed

lemma filter_in_diff_card:
  assumes "distinct C"
  shows "length (filter (in_diff_set D) C) = card (set C \<inter> JStr ` set D)"
proof -
  from assms have "length (filter (in_diff_set D) C) = card ({x. in_diff_set D x} \<inter> set C)"
    by (rule distinct_length_filter)
  then show ?thesis by (simp add: in_diff_set_image Int_commute)
qed

lemma calculate_cp_empty:
  "extract_context_files loads p = [] \<Longrightarrow>
   calculate_cp loads p D =
     Inr \<lparr> r_prompt_id = p_id p, r_timestamp = None, cp = 0,
           context_file_count = 0, diff_file_count = length D,
           intersection_count = 0, context_files = [], diff_files = D,
           intersection = None, unused_context_files = [] \<rparr>"
  by (simp add: calculate_cp_def)

lemma calculate_cp_nonempty:
  "extract_context_files loads p = C \<Longrightarrow> C \<noteq> [] \<Longrightarrow> list_all hashable C \<Longrightarrow>
   calculate_cp loads p D =
     Inr \<lparr> r_prompt_id = p_id p, r_timestamp = Some (p_timestamp p),
           cp = of_nat (length (filter (in_diff_set D) C)) / of_nat (length C),
           context_file_count = length C, diff_file_count = length D,
           intersection_count = length (filter (in_diff_set D) C),
           context_files = C, diff_files = D,
           intersection = Some (filter (in_diff_set D) C),
           unused_context_files = filter (\<lambda>f. \<not> in_diff_set D f) C \<rparr>"
  by (simp add: calculate_cp_def Let_def)

lemma calculate_cp_raises:
  "calculate_cp loads p D = Inl e \<longleftrightarrow>
     e = TypeError \<and> extract_context_files loads p \<noteq> []
       \<and> \<not> list_all hashable (extract_context_files loads p)"
  by (auto simp: calculate_cp_def Let_def)

lemma quotient_le_one: "(k::nat) \<le> n \<Longrightarrow> (of_nat k :: rat) / of_nat n \<le> 1"
  by (cases "n = 0") (simp_all add: divide_le_eq_1)

lemma calculate_cp_range:
  "calculate_cp loads p D = Inr r \<Longrightarrow> 0 \<le> cp r \<and> cp r \<le> 1"
  by (auto simp: calculate_cp_def Let_def quotient_le_one split: if_splits)

lemma extract_list_prompt_dup:
  "extract_context_files no_loads (list_prompt [JStr ''a.py'', JStr ''a.py'', JStr ''b.py''])
     = [JStr ''a.py'', JStr ''a.py'', JStr ''b.py'']"
  by (simp add: extract_context_files_def list_prompt_def decode_context_def)

text \<open>
  Where the extracted context list \<open>C\<close> is empty the result has \<open>cp = 0\<close> and the
  context and intersection counts 0; where \<open>C\<close> is non-empty, hashable and repeats no
  entry the returned \<open>cp\<close> is the set formula \<open>|C \<inter> D| / |C|\<close>; and every returned \<open>cp\<close>
  lies in \<open>[0, 1]\<close>.
\<close>

lemma calculate_cp_without_repeats:
  assumes "extract_context_files loads p = C"
  shows "(C = [] \<longrightarrow> (\<exists>r. calculate_cp loads p D = Inr r \<and> cp r = 0
              \<and> context_file_count r = 0 \<and> intersection_count r = 0))
       \<and> (C \<noteq> [] \<and> list_all hashable C \<and> distinct C \<longrightarrow>
              (\<exists>r. calculate_cp loads p D = Inr r \<and> cp r = cp_spec C D))
       \<and> (\<forall>r. calculate_cp loads p D = Inr r \<longrightarrow> 0 \<le> cp r \<and> cp r \<le> 1)"
proof (intro conjI impI allI)
  assume "C = []"
  with assms show "\<exists>r. calculate_cp loads p D = Inr r \<and> cp r = 0
              \<and> context_file_count r = 0 \<and> intersection_count r = 0"
    by (simp add: calculate_cp_empty)
next
  assume h: "C \<noteq> [] \<and> list_all hashable C \<and> distinct C"
  then have "length C = card (set C)" by (simp add: distinct_card)
  with h assms show "\<exists>r. calculate_cp loads p D = Inr r \<and> cp r = cp_spec C D"
    by (simp add: calculate_cp_nonempty cp_spec_def filter_in_diff_card)
next
  fix r assume "calculate_cp loads p D = Inr r"
  then show "0 \<le> cp r" "cp r \<le> 1" using calculate_cp_range by blast+
qed

text \<open>
  C1, at the context list \<open>[a.py, a.py, b.py]\<close> and the diff \<open>[a.py]\<close>: the module's
  formula \<open>|C \<inter> D| / |C|\<close> over the sets gives 1/2, but \<open>calculate_cp\<close> divides the
  lengths of the lists, counts \<open>a.py\<close> twice and returns \<open>cp = 2/3\<close> with
  \<open>context_file_count = 3\<close> and \<open>intersection_count = 2\<close>; the set it builds from the
  context list is never read.
\<close>

theorem calculate_cp_counts_repeated_file:
  "(case calculate_cp no_loads
           (list_prompt [JStr ''a.py'', JStr ''a.py'', JStr ''b.py'']) [''a.py''] of
      Inl e \<Rightarrow> False
    | Inr r \<Rightarrow> context_files r = [JStr ''a.py'', JStr ''a.py'', JStr ''b.py'']
          \<and> cp r = 2/3 \<and> context_file_count r = 3 \<and> intersection_count r = 2
          \<and> cp_spec (context_files r) [''a.py''] = 1/2
          \<and> cp r \<noteq> cp_spec (context_files r) [''a.py''])"
  by (simp add: calculate_cp_def extract_list_prompt_dup Let_def cp_spec_def)

subsection \<open>Normalising the context payload\<close>

lemma path_strings_Cons: "path_strings (f # fs) = path_strings [f] @ path_strings fs"
  by (simp add: path_strings_def map_filter_simps split: option.splits)

lemma path_or_fileName_obj_entry:
  assumes "obj_entry f"
  shows "\<exists>y. path_or_fileName f = Inr y \<and> filter truthy [y] = path_strings [f]"
proof (cases f)
  case (JObj d)
  with assms have pf: "path_field (map_of d ''path'')" "path_field (map_of d ''fileName'')"
    by simp_all
  from pf(1) consider "map_of d ''path'' = None" | "map_of d ''path'' = Some JNull"
    | s where "map_of d ''path'' = Some (JStr s)"
    by (cases "map_of d ''path''" rule: path_field.cases) simp_all
  then show ?thesis
  proof cases
    case 1
    from pf(2) show ?thesis
      by (cases "map_of d ''fileName''" rule: path_field.cases)
        (simp_all add: JObj 1 dict_get_def py_or_def path_strings_def map_filter_simps)
  next
    case 2
    from pf(2) show ?thesis
      by (cases "map_of d ''fileName''" rule: path_field.cases)
        (simp_all add: JObj 2 dict_get_def py_or_def path_strings_def map_filter_simps)
  next
    case 3
    from pf(2) show ?thesis
      by (cases "map_of d ''fileName''" rule: path_field.cases)
        (simp_all add: JObj 3 dict_get_def py_or_def path_strings_def map_filter_simps)
  qed
qed (use assms in simp_all)

lemma str_or_path_file_entry:
  assumes "file_entry f"
  shows "\<exists>y. str_or_path f = Inr y \<and> filter truthy [y] = path_strings [f]"
proof (cases f)
  case (JStr s)
  then show ?thesis by (simp add: path_strings_def map_filter_simps)
next
  case (JObj d)
  with assms have "obj_entry f" by simp
  from path_or_fileName_obj_entry [OF this] JObj show ?thesis by simp
qed (use assms in simp_all)

lemma comprehension_path_strings:
  assumes step: "\<And>f. Q f \<Longrightarrow> \<exists>y. g f = Inr y \<and> filter truthy [y] = path_strings [f]"
  shows "list_all Q fs \<Longrightarrow>
     \<exists>ys. comprehension g fs = Inr ys \<and> filter truthy ys = path_strings fs"
proof (induction fs)
  case Nil
  then show ?case by (simp add: path_strings_def map_filter_simps)
next
  case (Cons f fs)
  then have "Q f" and "list_all Q fs" by simp_all
  from step [OF \<open>Q f\<close>] obtain y where y: "g f = Inr y"
    "filter truthy [y] = path_strings [f]" by blast
  from Cons.IH [OF \<open>list_all Q fs\<close>] obtain ys where ys: "comprehension g fs = Inr ys"
    "filter truthy ys = path_strings fs" by blast
  have "filter truthy (y # ys) = filter truthy [y] @ filter truthy ys" by simp
  also have "\<dots> = path_strings (f # fs)"
    unfolding y(2) ys(2) by (rule path_strings_Cons [symmetric])
  finally show ?case using y(1) ys(1) by simp
qed

lemma files_of_list:
  "list_all file_entry fs \<Longrightarrow>
   \<exists>ys. files_of_context (JArr fs) = Inr ys \<and> filter truthy ys = path_strings fs"
  using comprehension_path_strings [of file_entry str_or_path fs] str_or_path_file_entry
  by simp

lemma files_of_attached:
  "map_of d ''attachedFiles'' = Some (JArr fs) \<Longrightarrow> list_all obj_entry fs \<Longrightarrow>
   \<exists>ys. files_of_context (JObj d) = Inr ys \<and> filter truthy ys = path_strings fs"
  using comprehension_path_strings [of obj_entry path_or_fileName fs] path_or_fileName_obj_entry
  by (auto simp: iter_comprehension_def dict_get_def dest: map_of_SomeD intro: rev_image_eqI)

lemma files_of_codebase:
  "map_of d ''attachedFiles'' = None \<Longrightarrow> map_of d ''codebaseFiles'' = Some (JArr fs) \<Longrightarrow>
   list_all obj_entry fs \<Longrightarrow>
   \<exists>ys. files_of_context (JObj d) = Inr ys \<and> filter truthy ys = path_strings fs"
  using comprehension_path_strings [of obj_entry path_or_fileName fs] path_or_fileName_obj_entry
  by (auto simp: iter_comprehension_def dict_get_def map_of_eq_None_iff
           dest: map_of_SomeD intro: rev_image_eqI)

lemma files_of_files:
  "map_of d ''attachedFiles'' = None \<Longrightarrow> map_of d ''codebaseFiles'' = None \<Longrightarrow>
   map_of d ''files'' = Some (JArr fs) \<Longrightarrow> list_all file_entry fs \<Longrightarrow>
   \<exists>ys. files_of_context (JObj d) = Inr ys \<and> filter truthy ys = path_strings fs"
  using comprehension_path_strings [of file_entry str_or_path fs] str_or_path_file_entry
  by (auto simp: iter_comprehension_def dict_get_def map_of_eq_None_iff
           dest: map_of_SomeD intro: rev_image_eqI)

text \<open>
  A payload that is the list or object \<open>c\<close> itself, or non-empty text that
  \<open>json.loads\<close> decodes to \<open>c\<close>, is extracted as the truthy entries of
  \<open>files_of_context c\<close>.
\<close>

lemma extract_context_files_payload:
  assumes payload: "context_files_json p = c
      \<or> (\<exists>s. context_files_json p = JStr s \<and> s \<noteq> [] \<and> loads s = Some c)"
    and shape: "(\<exists>fs. c = JArr fs) \<or> (\<exists>d. c = JObj d)"
    and files: "files_of_context c = Inr ys"
  shows "extract_context_files loads p = filter truthy ys"
  using payload
proof
  assume direct: "context_files_json p = c"
  show ?thesis
  proof (cases "truthy c")
    case True
    with direct shape files show ?thesis
      by (auto simp: extract_context_files_def decode_context_def)
  next
    case False
    with shape have "c = JArr [] \<or> c = JObj []" by auto
    with files have "ys = []" by auto
    with direct False show ?thesis by (simp add: extract_context_files_def)
  qed
next
  assume "\<exists>s. context_files_json p = JStr s \<and> s \<noteq> [] \<and> loads s = Some c"
  with files show ?thesis
    by (auto simp: extract_context_files_def decode_context_def)
qed

lemma extract_attached_prompt:
  "extract_context_files loads attached_prompt = [JStr ''a.py'', JStr ''b.py'']"
  by (simp add: extract_context_files_def attached_prompt_def decode_context_def
        iter_comprehension_def dict_get_def py_or_def)

text \<open>
  C7, as stated: every payload shape is normalised to its path strings, null and
  empty entries dropped. A null entry in a plain list is not dropped: reading its
  \<open>path\<close> raises inside the \<open>try\<close> and the whole list, \<open>a.py\<close> included, is lost. The
  same happens to plain strings under \<open>attachedFiles\<close>, and a \<open>path\<close> that is a number
  is returned as it is.
\<close>

theorem extract_context_files_null_entry_counterexample:
  "extract_context_files no_loads (list_prompt [JStr ''a.py'', JNull]) = []
   \<and> path_strings [JStr ''a.py'', JNull] = [JStr ''a.py'']
   \<and> extract_context_files no_loads attached_strings_prompt = []
   \<and> path_strings [JStr ''a.py'', JStr ''b.py''] = [JStr ''a.py'', JStr ''b.py'']
   \<and> extract_context_files no_loads (list_prompt [JObj [(''path'', JNum 5)]]) = [JNum 5]
   \<and> path_strings [JObj [(''path'', JNum 5)]] = []"
  by (simp add: extract_context_files_def list_prompt_def attached_strings_prompt_def
        decode_context_def iter_comprehension_def dict_get_def py_or_def
        path_strings_def map_filter_simps)

text \<open>
  C7, amended: the attached-files scenario gives \<open>cp = 0.5\<close>, intersection \<open>[a.py]\<close> and
  unused context files \<open>[b.py]\<close>. No entry of an extracted list is null or empty. A
  payload, given decoded or as non-empty JSON text that decodes to it, is normalised
  to the flat list of its non-empty path strings whenever it is a plain list, or an
  object in which the first present key among \<open>attachedFiles\<close>, \<open>codebaseFiles\<close> and
  \<open>files\<close> holds a list, and every entry of that list is an object whose \<open>path\<close> and
  \<open>fileName\<close> are each absent, null or a string, or, in a plain list and under \<open>files\<close>
  only, a string. An object entry contributes its \<open>path\<close> when that is a non-empty
  string and otherwise its \<open>fileName\<close>.
\<close>

theorem extract_context_files_normalizes:
  "(\<exists>r. calculate_cp loads attached_prompt [''a.py'', ''c.py''] = Inr r
        \<and> cp r = 1/2 \<and> intersection r = Some [JStr ''a.py'']
        \<and> unused_context_files r = [JStr ''b.py''])
   \<and> (\<forall>f \<in> set (extract_context_files loads p). truthy f)
   \<and> (context_files_json p = c
        \<or> (\<exists>s. context_files_json p = JStr s \<and> s \<noteq> [] \<and> loads s = Some c) \<longrightarrow>
        (c = JArr fs \<and> list_all file_entry fs \<longrightarrow>
           extract_context_files loads p = path_strings fs)
      \<and> (c = JObj d \<and> map_of d ''attachedFiles'' = Some (JArr fs) \<and> list_all obj_entry fs \<longrightarrow>
           extract_context_files loads p = path_strings fs)
      \<and> (c = JObj d \<and> map_of d ''attachedFiles'' = None
           \<and> map_of d ''codebaseFiles'' = Some (JArr fs) \<and> list_all obj_entry fs \<longrightarrow>
           extract_context_files loads p = path_strings fs)
      \<and> (c = JObj d \<and> map_of d ''attachedFiles'' = None \<and> map_of d ''codebaseFiles'' = None
           \<and> map_of d ''files'' = Some (JArr fs) \<and> list_all file_entry fs \<longrightarrow>
           extract_context_files loads p = path_strings fs))"
proof (intro conjI impI ballI)
  show "\<exists>r. calculate_cp loads attached_prompt [''a.py'', ''c.py''] = Inr r
        \<and> cp r = 1/2 \<and> intersection r = Some [JStr ''a.py'']
        \<and> unused_context_files r = [JStr ''b.py'']"
    by (simp add: calculate_cp_def extract_attached_prompt Let_def)
next
  fix f assume "f \<in> set (extract_context_files loads p)"
  then show "truthy f" by (rule extract_context_files_truthy)
next
  assume h: "context_files_json p = c
        \<or> (\<exists>s. context_files_json p = JStr s \<and> s \<noteq> [] \<and> loads s = Some c)"
    and s: "c = JArr fs \<and> list_all file_entry fs"
  from s files_of_list obtain ys where ys: "files_of_context c = Inr ys"
    "filter truthy ys = path_strings fs" by blast
  from s have "(\<exists>fs. c = JArr fs) \<or> (\<exists>d. c = JObj d)" by blast
  from extract_context_files_payload [OF h this ys(1)] ys(2)
  show "extract_context_files loads p = path_strings fs" by simp
next
  assume h: "context_files_json p = c
        \<or> (\<exists>s. context_files_json p = JStr s \<and> s \<noteq> [] \<and> loads s = Some c)"
    and s: "c = JObj d \<and> map_of d ''attachedFiles'' = Some (JArr fs) \<and> list_all obj_entry fs"
  from s files_of_attached obtain ys where ys: "files_of_context c = Inr ys"
    "filter truthy ys = path_strings fs" by blast
  from s have "(\<exists>fs. c = JArr fs) \<or> (\<exists>d. c = JObj d)" by blast
  from extract_context_files_payload [OF h this ys(1)] ys(2)
  show "extract_context_files loads p = path_strings fs" by simp
next
  assume h: "context_files_json p = c
        \<or> (\<exists>s. context_files_json p = JStr s \<and> s \<noteq> [] \<and> loads s = Some c)"
    and s: "c = JObj d \<and> map_of d ''attachedFiles'' = None
           \<and> map_of d ''codebaseFiles'' = Some (JArr fs) \<and> list_all obj_entry fs"
  from s files_of_codebase obtain ys where ys: "files_of_context c = Inr ys"
    "filter truthy ys = path_strings fs" by blast
  from s have "(\<exists>fs. c = JArr fs) \<or> (\<exists>d. c = JObj d)" by blast
  from extract_context_files_payload [OF h this ys(1)] ys(2)
  show "extract_context_files loads p = path_strings fs" by simp
next
  assume h: "context_files_json p = c
        \<or> (\<exists>s. context_files_json p = JStr s \<and> s \<noteq> [] \<and> loads s = Some c)"
    and s: "c = JObj d \<and> map_of d ''attachedFiles'' = None \<and> map_of d ''codebaseFiles'' = None
           \<and> map_of d ''files'' = Some (JArr fs) \<and> list_all file_entry fs"
  from s files_of_files obtain ys where ys: "files_of_context c = Inr ys"
    "filter truthy ys = path_strings fs" by blast
  from s have "(\<exists>fs. c = JArr fs) \<or> (\<exists>d. c = JObj d)" by blast
  from extract_context_files_payload [OF h this ys(1)] ys(2)
  show "extract_context_files loads p = path_strings fs" by simp
qed

theorem extract_context_files_normalizes_witness:
  "context_files_json files_prompt = JObj [(''files'', JArr files_entries)]
   \<and> map_of [(''files'', JArr files_entries)] ''attachedFiles'' = None
   \<and> map_of [(''files'', JArr files_entries)] ''codebaseFiles'' = None
   \<and> map_of [(''files'', JArr files_entries)] ''files'' = Some (JArr files_entries)
   \<and> list_all file_entry files_entries
   \<and> extract_context_files no_loads files_prompt = [JStr ''m.py'', JStr ''n.py'']
   \<and> list_all truthy (extract_context_files no_loads files_prompt)"
  using extract_context_files_normalizes
    [where loads = no_loads and p = files_prompt and c = "JObj [(''files'', JArr files_entries)]"
       and d = "[(''files'', JArr files_entries)]" and fs = files_entries]
  by (simp add: files_prompt_def files_entries_def path_strings_def map_filter_simps)

subsection \<open>Baseline statistics\<close>

lemma median_of_rule:
  "cp_scores \<noteq> [] \<Longrightarrow>
   median_of cp_scores =
     (if even (length cp_scores)
      then (sort cp_scores ! (length cp_scores div 2 - 1)
            + sort cp_scores ! (length cp_scores div 2)) / 2
      else sort cp_scores ! (length cp_scores div 2))"
  by (cases cp_scores) (auto simp: median_of_def Let_def even_iff_mod_2_eq_zero)

lemma buckets_cover:
  "\<forall>c \<in> set cp_scores. 0 \<le> c \<and> c \<le> 1 \<Longrightarrow>
   sum_list (map snd (distribution_of cp_scores)) = length cp_scores"
  by (induction cp_scores) (auto simp: distribution_of_def bucket_count_def)

lemma bucket_bounds:
  "i < 5 \<Longrightarrow>
   map snd (distribution_of cp_scores) ! i =
     length (filter (\<lambda>c. of_nat i / 5 \<le> c \<and> (if i < 4 then c < (of_nat i + 1) / 5 else c \<le> 1))
               cp_scores)"
proof -
  assume "i < 5"
  then consider "i = 0" | "i = 1" | "i = 2" | "i = 3" | "i = 4" by linarith
  then show ?thesis
    by cases (simp_all add: distribution_of_def bucket_count_def)
qed

lemma baseline_stats_nonempty:
  "cp_records \<noteq> [] \<Longrightarrow>
   median (baseline_stats cp_records) = median_of (map cp cp_records)
   \<and> distribution (baseline_stats cp_records) = distribution_of (map cp cp_records)"
  by (simp add: baseline_stats_def Let_def)

text \<open>
  C8: for a non-empty list of scores the baseline's median is the middle element of the
  sorted scores when their number is odd and the mean of the two middle elements when it
  is even; bucket \<open>i\<close> of the distribution counts the scores in \<open>[i/5, (i+1)/5)\<close>, the last
  one those in \<open>[4/5, 1]\<close>, so that every score in \<open>[0, 1]\<close> is counted exactly once; and
  the scores \<open>[0.0, 0.2, 0.4, 0.6, 1.0]\<close> give median \<open>0.4\<close> and one score per bucket.
\<close>

theorem baseline_median_and_distribution:
  assumes "cp_records \<noteq> []" and "scores = map cp cp_records"
  shows "median (baseline_stats cp_records) =
           (if even (length scores)
            then (sort scores ! (length scores div 2 - 1) + sort scores ! (length scores div 2)) / 2
            else sort scores ! (length scores div 2))
       \<and> map fst (distribution (baseline_stats cp_records))
           = [''0.0-0.2'', ''0.2-0.4'', ''0.4-0.6'', ''0.6-0.8'', ''0.8-1.0'']
       \<and> (\<forall>i < 5. map snd (distribution (baseline_stats cp_records)) ! i =
             length (filter (\<lambda>c. of_nat i / 5 \<le> c
                                  \<and> (if i < 4 then c < (of_nat i + 1) / 5 else c \<le> 1)) scores))
       \<and> ((\<forall>c \<in> set scores. 0 \<le> c \<and> c \<le> 1) \<longrightarrow>
             sum_list (map snd (distribution (baseline_stats cp_records))) = length scores)
       \<and> (scores = [0, 1/5, 2/5, 3/5, 1] \<longrightarrow>
             median (baseline_stats cp_records) = 2/5
           \<and> map snd (distribution (baseline_stats cp_records)) = [1, 1, 1, 1, 1])"
proof -
  from assms have ne: "scores \<noteq> []" by simp
  from assms have m: "median (baseline_stats cp_records) = median_of scores"
    and d: "distribution (baseline_stats cp_records) = distribution_of scores"
    by (simp_all add: baseline_stats_nonempty)
  have c1: "median_of scores =
           (if even (length scores)
            then (sort scores ! (length scores div 2 - 1) + sort scores ! (length scores div 2)) / 2
            else sort scores ! (length scores div 2))"
    using ne by (rule median_of_rule)
  have c2: "map fst (distribution_of scores)
           = [''0.0-0.2'', ''0.2-0.4'', ''0.4-0.6'', ''0.6-0.8'', ''0.8-1.0'']"
    by (simp add: distribution_of_def)
  have c3: "\<forall>i < 5. map snd (distribution_of scores) ! i =
             length (filter (\<lambda>c. of_nat i / 5 \<le> c
                                  \<and> (if i < 4 then c < (of_nat i + 1) / 5 else c \<le> 1)) scores)"
    using bucket_bounds by blast
  have c4: "(\<forall>c \<in> set scores. 0 \<le> c \<and> c \<le> 1) \<longrightarrow>
             sum_list (map snd (distribution_of scores)) = length scores"
    using buckets_cover by blast
  have c5: "scores = [0, 1/5, 2/5, 3/5, 1] \<longrightarrow>
             median_of scores = 2/5 \<and> map snd (distribution_of scores) = [1, 1, 1, 1, 1]"
    by (simp add: median_of_def Let_def distribution_of_def bucket_count_def)
  from c1 c2 c3 c4 c5 show ?thesis unfolding m d by blast
qed

theorem baseline_median_and_distribution_witness:
  "map score_record [0, 1/5, 2/5, 3/5, 1] \<noteq> []
   \<and> [0, 1/5, 2/5, 3/5, 1] = map cp (map score_record [0, 1/5, 2/5, 3/5, 1])
   \<and> list_all (\<lambda>c. 0 \<le> c \<and> c \<le> 1) [0, 1/5, 2/5, 3/5, 1 :: rat]
   \<and> median (baseline_stats (map score_record [0, 1/5, 2/5, 3/5, 1])) = 2/5
   \<and> map snd (distribution (baseline_stats (map score_record [0, 1/5, 2/5, 3/5, 1])))
       = [1, 1, 1, 1, 1]
   \<and> sum_list (map snd (distribution (baseline_stats (map score_record [0, 1/5, 2/5, 3/5, 1]))))
       = 5"
  using baseline_median_and_distribution
    [of "map score_record [0, 1/5, 2/5, 3/5, 1]" "[0, 1/5, 2/5, 3/5, 1]"]
  by (simp add: score_record_def)

lemma comprehension_empty_iff: "comprehension f xs = Inr [] \<longleftrightarrow> xs = []"
  by (cases xs) (auto split: sum.splits)

text \<open>
  C10: when the prompt list retrieved for a baseline run is empty,
  \<open>calculate_baseline_cp\<close> returns average, median, minimum and maximum 0 with count 0
  and an empty distribution, and raises nothing.
\<close>

theorem calculate_baseline_cp_no_prompts:
  assumes "get_prompts d workspace_path limit = []"
  shows "calculate_baseline_cp loads d workspace_path limit =
           Inr \<lparr> average = 0, median = 0, min_score = 0, max_score = 0, count = 0,
                 distribution = [], records = None \<rparr>"
  using assms by (simp add: calculate_baseline_cp_def baseline_stats_def)

theorem calculate_baseline_cp_no_prompts_witness:
  "get_prompts empty_db None (Some 1000) = []
   \<and> calculate_baseline_cp no_loads empty_db None (Some 1000) =
           Inr \<lparr> average = 0, median = 0, min_score = 0, max_score = 0, count = 0,
                 distribution = [], records = None \<rparr>"
  using calculate_baseline_cp_no_prompts [of empty_db None "Some 1000" no_loads]
  by (simp add: get_prompts_def empty_db_def)

subsection \<open>The single-prompt command\<close>

text \<open>
  C9, at a store holding the prompts 1 and 2: prompt 2 is present, yet
  \<open>--prompt-id 2\<close> ends with "Prompt 2 not found" and exit code 1, because the lookup
  searches only the one row of \<open>get_prompts(limit=1)\<close>; prompt 1, the earliest row, is
  found and its record written.
\<close>

theorem main_cp_present_prompt_not_found:
  "find_prompt 2 (db_prompts two_prompt_db) \<noteq> None
   \<and> main_cp no_loads (Some two_prompt_db) (prompt_id_args 2) = Exit1 (PromptNotFound 2)
   \<and> (\<exists>r. main_cp no_loads (Some two_prompt_db) (prompt_id_args 1) = Written None (CpResult r)
          \<and> r_prompt_id r = Some 1)"
  by (simp add: main_cp_def find_prompt_def get_prompts_def two_prompt_db_def prompt_id_args_def
        calculate_cp_def extract_context_files_def decode_context_def Let_def)

subsection \<open>The library builder on an empty extraction\<close>

text \<open>
  C3, as stated: with zero sequences the builder returns the five-key artifact with
  \<open>clusters_found = 0\<close>. On a store without events the code returns the two keys
  \<open>error\<close> and \<open>library\<close> instead, and no \<open>clusters_found\<close>.
\<close>

theorem build_behavioral_library_empty_counterexample:
  "build_behavioral_library idle_processor None
     = Inr [(''error'', VText ''No sequences found''), (''library'', VClusters [])]
   \<and> \<not> empty_library_spec [(''error'', VText ''No sequences found''), (''library'', VClusters [])]
   \<and> map_of [(''error'', VText ''No sequences found''), (''library'', VClusters [])]
        ''clusters_found'' = None"
  by (simp add: build_behavioral_library_def idle_processor_def extract_sequences_def
        sequences_by_session_def empty_library_spec_def)

text \<open>
  C3, amended: when zero sequences are extracted for a workspace,
  \<open>build_behavioral_library\<close> does not fail and returns the value with the two keys
  \<open>error\<close> (\<open>No sequences found\<close>) and \<open>library\<close> (the empty list); the value has no
  \<open>clusters_found\<close> key.
\<close>

theorem build_behavioral_library_no_sequences:
  assumes "extract_sequences (sp_events sp workspace_path) 3 50 = Inr []"
  shows "\<exists>lib. build_behavioral_library sp workspace_path = Inr lib
           \<and> lib = [(''error'', VText ''No sequences found''), (''library'', VClusters [])]
           \<and> map_of lib ''clusters_found'' = None"
  using assms by (simp add: build_behavioral_library_def)

theorem build_behavioral_library_no_sequences_witness:
  "extract_sequences (sp_events idle_processor (Some ''/w'')) 3 50 = Inr []
   \<and> (\<exists>lib. build_behavioral_library idle_processor (Some ''/w'') = Inr lib
           \<and> lib = [(''error'', VText ''No sequences found''), (''library'', VClusters [])]
           \<and> map_of lib ''clusters_found'' = None)"
  using build_behavioral_library_no_sequences [of idle_processor "Some ''/w''"]
  by (simp add: idle_processor_def extract_sequences_def sequences_by_session_def)

subsection \<open>Extracting sequences\<close>

lemma first_occurrences_snoc:
  "first_occurrences (xs @ [x]) =
     (if x \<in> set xs then first_occurrences xs else first_occurrences xs @ [x])"
  by (simp add: first_occurrences_def)

lemma first_occurrences_set: "set (first_occurrences xs) = set xs"
  by (simp add: first_occurrences_def)

lemma first_occurrences_distinct: "distinct (first_occurrences xs)"
  by (simp add: first_occurrences_def)

lemma add_event_groups:
  assumes "distinct ks" and "session_of ev \<notin> set ks \<Longrightarrow> F (session_of ev) = []"
  shows "add_event (map (\<lambda>k. (k, F k)) ks) ev =
           map (\<lambda>k. (k, if k = session_of ev then F k @ [ev] else F k))
             (if session_of ev \<in> set ks then ks else ks @ [session_of ev])"
  using assms
proof (induction ks)
  case Nil
  then show ?case by simp
next
  case (Cons k ks)
  show ?case
  proof (cases "k = session_of ev")
    case True
    with Cons.prems(1) have "session_of ev \<notin> set ks" by auto
    then have "map (\<lambda>k. (k, if k = session_of ev then F k @ [ev] else F k)) ks
               = map (\<lambda>k. (k, F k)) ks"
      by (intro map_cong) auto
    with True show ?thesis by simp
  next
    case False
    from Cons.prems have d: "distinct ks"
      and e: "session_of ev \<notin> set ks \<Longrightarrow> F (session_of ev) = []"
      using False by auto
    from Cons.IH [OF d e] False show ?thesis by auto
  qed
qed

lemma sequences_by_session_snoc:
  "sequences_by_session (events @ [ev]) = add_event (sequences_by_session events) ev"
  by (simp add: sequences_by_session_def)

lemma sequences_by_session_groups:
  "sequences_by_session events =
     map (\<lambda>k. (k, filter (\<lambda>e. session_of e = k) events))
       (first_occurrences (map session_of events))"
proof (induction events rule: rev_induct)
  case Nil
  show ?case by (simp add: sequences_by_session_def first_occurrences_def)
next
  case (snoc ev events)
  let ?ks = "first_occurrences (map session_of events)"
  let ?F = "\<lambda>k. filter (\<lambda>e. session_of e = k) events"
  have empty: "?F (session_of ev) = []" if "session_of ev \<notin> set ?ks"
  proof -
    from that have "session_of ev \<notin> session_of ` set events"
      by (simp add: first_occurrences_set)
    then have "\<forall>e \<in> set events. session_of e \<noteq> session_of ev"
      by (metis imageI)
    then show ?thesis by (simp add: filter_empty_conv)
  qed
  have "sequences_by_session (events @ [ev]) = add_event (map (\<lambda>k. (k, ?F k)) ?ks) ev"
    by (simp add: sequences_by_session_snoc snoc.IH)
  also have "\<dots> = map (\<lambda>k. (k, if k = session_of ev then ?F k @ [ev] else ?F k))
             (if session_of ev \<in> set ?ks then ?ks else ?ks @ [session_of ev])"
    using first_occurrences_distinct empty by (rule add_event_groups)
  also have "\<dots> = map (\<lambda>k. (k, filter (\<lambda>e. session_of e = k) (events @ [ev])))
             (first_occurrences (map session_of (events @ [ev])))"
    by (auto simp: first_occurrences_snoc first_occurrences_set)
  finally show ?case .
qed

lemma sort_session_text:
  assumes "\<forall>ev \<in> set session_events. is_text (sort_key_of ev)"
  shows "sort_session session_events = Inr (sort_key timestamp_text session_events)"
proof (cases "length session_events < 2")
  case True
  then consider "session_events = []" | ev where "session_events = [ev]"
    by (cases session_events; cases "tl session_events") auto
  then show ?thesis by cases (simp_all add: sort_session_def)
next
  case False
  have "(\<lambda>ev. text_of (sort_key_of ev)) = timestamp_text"
    by (simp add: timestamp_text_def fun_eq_iff)
  with False assms show ?thesis by (simp add: sort_session_def list_all_iff)
qed

lemma sort_and_filter_text:
  assumes "\<forall>session_events \<in> set groups. \<forall>ev \<in> set session_events. is_text (sort_key_of ev)"
  shows "sort_and_filter lo hi groups =
           Inr (filter (\<lambda>s. lo \<le> length s \<and> length s \<le> hi)
                  (map (sort_key timestamp_text) groups))"
  using assms by (induction groups) (simp_all add: sort_session_text)

text \<open>
  What \<open>extract_sequences\<close> returns when every timestamp is text or absent: the
  sessions in the order of their first event, each holding its events sorted by
  timestamp, those with a length within the bounds.
\<close>

lemma extract_sequences_text_timestamps:
  assumes "\<forall>ev \<in> set events. is_text (sort_key_of ev)"
  shows "extract_sequences events lo hi =
           Inr (filter (\<lambda>s. lo \<le> length s \<and> length s \<le> hi)
                  (map (\<lambda>k. sort_key timestamp_text (filter (\<lambda>e. session_of e = k) events))
                     (first_occurrences (map session_of events))))"
proof -
  have "\<forall>session_events \<in> set (map snd (sequences_by_session events)).
          \<forall>ev \<in> set session_events. is_text (sort_key_of ev)"
    using assms by (auto simp: sequences_by_session_groups)
  then have "extract_sequences events lo hi =
           Inr (filter (\<lambda>s. lo \<le> length s \<and> length s \<le> hi)
                  (map (sort_key timestamp_text) (map snd (sequences_by_session events))))"
    unfolding extract_sequences_def by (rule sort_and_filter_text)
  then show ?thesis by (simp add: sequences_by_session_groups comp_def)
qed

lemma sorted_session_stable:
  "sorted (map timestamp_text (sort_key timestamp_text session_events))
   \<and> filter (\<lambda>ev. timestamp_text ev = t) (sort_key timestamp_text session_events)
       = filter (\<lambda>ev. timestamp_text ev = t) session_events"
  by (simp add: sort_key_stable)

lemma absent_timestamp_sorts_first:
  "e_timestamp ev = None \<Longrightarrow> timestamp_text ev \<le> timestamp_text ev'"
  by (simp add: timestamp_text_def sort_key_of_def)

lemma sessions_null_timestamp:
  "sequences_by_session null_timestamp_events = [(''s1'', null_timestamp_events)]"
  by (simp add: sequences_by_session_def null_timestamp_events_def session_event_def
        session_of_def)

lemma sessions_absent_timestamp:
  "sequences_by_session absent_timestamp_events = [(''s1'', absent_timestamp_events)]"
  by (simp add: sequences_by_session_def absent_timestamp_events_def session_event_def
        session_of_def)

text \<open>
  C5, at a session of three events whose second timestamp is \<open>NULL\<close>: the sort key of
  that event is \<open>None\<close>, not the empty string, the sort raises TypeError and no sequence
  is returned. With the \<open>timestamp\<close> key absent instead, the same session is returned
  with that event first.
\<close>

theorem extract_sequences_null_timestamp_raises:
  "extract_sequences null_timestamp_events 3 50 = Inl TypeError
   \<and> extract_sequences absent_timestamp_events 3 50
       = Inr [[session_event ''e2'' None,
               session_event ''e3'' (Some (DText ''2024-01-01'')),
               session_event ''e1'' (Some (DText ''2024-01-02''))]]"
proof
  show "extract_sequences null_timestamp_events 3 50 = Inl TypeError"
    unfolding extract_sequences_def sessions_null_timestamp
    by (simp add: sort_session_def null_timestamp_events_def sort_key_of_def session_event_def)
next
  have lt: "''2024-01-01'' < ''2024-01-02''" "[] < ''2024-01-01''" "[] < ''2024-01-02''"
    by (simp_all add: less_char_def)
  show "extract_sequences absent_timestamp_events 3 50
       = Inr [[session_event ''e2'' None,
               session_event ''e3'' (Some (DText ''2024-01-01'')),
               session_event ''e1'' (Some (DText ''2024-01-02''))]]"
    unfolding extract_sequences_def sessions_absent_timestamp
    using lt
    by (simp add: sort_session_def absent_timestamp_events_def sort_key_of_def
          session_event_def less_le_not_le)
qed

subsection \<open>Vectorising an event\<close>

lemma encoder_length:
  "length (build_event_type_encoder events) = length (remdups (truthy_types events))"
  by (simp add: build_event_type_encoder_def Let_def)

lemma encoder_index_in_range:
  assumes "map_of (build_event_type_encoder events) t = Some i"
  shows "i < length (build_event_type_encoder events)"
proof -
  let ?ts = "sort (remdups (truthy_types events))"
  from assms have "(t, i) \<in> set (zip ?ts [0 ..< length ?ts])"
    by (auto simp: build_event_type_encoder_def Let_def dest: map_of_SomeD)
  then have "i \<in> set [0 ..< length ?ts]" by (rule set_zip_rightD)
  then show ?thesis by (simp add: build_event_type_encoder_def Let_def)
qed

lemma one_hot_built_encoder:
  assumes "event_type_map vz = build_event_type_encoder events"
  shows "one_hot_encode_event_type vz ty =
           Inr (case ty of
                  None \<Rightarrow> replicate (length (event_type_map vz)) 0
                | Some t \<Rightarrow>
                    (case map_of (event_type_map vz) t of
                       None \<Rightarrow> replicate (length (event_type_map vz)) 0
                     | Some i \<Rightarrow> (replicate (length (event_type_map vz)) 0)[i := 1]))"
proof (cases "event_type_map vz = []")
  case True
  then show ?thesis
    by (simp add: one_hot_encode_event_type_def split: option.splits)
next
  case False
  then show ?thesis
    using encoder_index_in_range [of events] assms
    by (auto simp: one_hot_encode_event_type_def Let_def split: option.splits)
qed

text \<open>
  C4, as stated: the one-hot sub-vector is followed by an embedding of the prompt
  text. With a provider that answers every text, \<open>embed_text\<close> yields the embedding
  \<open>[1, 2]\<close> for the prompt text, yet the vector of the event ends with the 768 zeros:
  \<open>vectorize_event\<close> never asks for an embedding.
\<close>

theorem vectorize_event_embedding_counterexample:
  "fst (embed_text answering_env plain_vectorizer ''fix the bug'') = Some [1, 2]
   \<and> (case vectorize_event plain_vectorizer (session_event ''e1'' None) (Some ''fix the bug'') of
         Inl e \<Rightarrow> False
       | Inr v \<Rightarrow> semantic_part v = replicate 768 0 \<and> semantic_part v \<noteq> [1, 2])"
proof -
  have ne: "replicate 768 (0::rat) \<noteq> [1, 2]"
  proof
    assume "replicate 768 (0::rat) = [1, 2]"
    then have "length (replicate 768 (0::rat)) = length [1, 2 :: rat]" by (rule arg_cong)
    then show False by simp
  qed
  have "fst (embed_text answering_env plain_vectorizer ''fix the bug'') = Some [1, 2]"
    by (simp add: embed_text_def answering_env_def plain_vectorizer_def remote_embedding_def
          py_isspace_def Let_def)
  moreover have "vectorize_event plain_vectorizer (session_event ''e1'' None) (Some ''fix the bug'')
      = Inr \<lparr> event_id = DText ''e1'', v_timestamp = DNull, event_type = Some ''edit'',
              event_type_vector = [], v_prompt_text = Some ''fix the bug'',
              combined_vector = replicate 768 0 \<rparr>"
    by (simp add: vectorize_event_def one_hot_encode_event_type_def plain_vectorizer_def
          session_event_def)
  ultimately show ?thesis using ne by (simp add: semantic_part_def)
qed

text \<open>
  C4, amended: for every event and optional prompt text, with an encoder built by
  \<open>build_event_type_encoder\<close>, \<open>vectorize_event\<close> returns, without raising, the
  one-hot event-type sub-vector (all zeros when the event's type is absent from the
  encoder) followed by the 768-long all-zero placeholder, whether or not an embedding
  of the text is obtainable.
\<close>

theorem vectorize_event_placeholder:
  assumes "event_type_map vz = build_event_type_encoder events"
  shows "\<exists>v. vectorize_event vz ev prompt_text = Inr v
           \<and> combined_vector v = event_type_vector v @ replicate 768 0
           \<and> semantic_part v = replicate 768 0
           \<and> length (event_type_vector v) = length (event_type_map vz)
           \<and> ((\<forall>t. e_type ev = Some t \<longrightarrow> map_of (event_type_map vz) t = None) \<longrightarrow>
                event_type_vector v = replicate (length (event_type_map vz)) 0)
           \<and> (\<forall>t i. e_type ev = Some t \<and> map_of (event_type_map vz) t = Some i \<longrightarrow>
                event_type_vector v = (replicate (length (event_type_map vz)) 0)[i := 1])"
  using one_hot_built_encoder [OF assms, of "e_type ev"]
  by (auto simp: vectorize_event_def semantic_part_def split: option.splits)

theorem vectorize_event_placeholder_witness:
  "event_type_map (plain_vectorizer\<lparr> event_type_map := build_event_type_encoder null_timestamp_events \<rparr>)
     = build_event_type_encoder null_timestamp_events
   \<and> build_event_type_encoder null_timestamp_events = [(''edit'', 0)]
   \<and> (\<exists>v. vectorize_event
             (plain_vectorizer\<lparr> event_type_map := build_event_type_encoder null_timestamp_events \<rparr>)
             (session_event ''e1'' None) (Some ''fix the bug'') = Inr v
           \<and> event_type_vector v = [1]
           \<and> combined_vector v = [1] @ replicate 768 0)"
proof -
  have enc: "build_event_type_encoder null_timestamp_events = [(''edit'', 0)]"
    by (simp add: build_event_type_encoder_def null_timestamp_events_def session_event_def)
  show ?thesis
    using vectorize_event_placeholder
      [of "plain_vectorizer\<lparr> event_type_map := build_event_type_encoder null_timestamp_events \<rparr>"
          null_timestamp_events "session_event ''e1'' None" "Some ''fix the bug''"]
    by (auto simp: enc session_event_def)
qed

subsection \<open>Grouping the labels into clusters\<close>
lemma add_index_keys:
  "map fst (add_index g l i) = (if l \<in> fst ` set g then map fst g else map fst g @ [l])"
  by (induction g) (auto simp: rev_image_eqI)

lemma add_index_distinct_keys:
  "distinct (map fst g) \<Longrightarrow> distinct (map fst (add_index g l i))"
  by (simp add: add_index_keys)

lemma add_index_mem:
  "distinct (map fst g) \<Longrightarrow>
   (k, idxs) \<in> set (add_index g l i) \<longleftrightarrow>
     (k \<noteq> l \<and> (k, idxs) \<in> set g)
     \<or> (k = l \<and> (if l \<in> fst ` set g then \<exists>old. (l, old) \<in> set g \<and> idxs = old @ [i]
                  else idxs = [i]))"
proof (induction g)
  case Nil
  show ?case by auto
next
  case (Cons a g)
  obtain k' old' where a: "a = (k', old')" by (cases a)
  from Cons.prems have d: "distinct (map fst g)" and nk: "k' \<notin> fst ` set g" by (auto simp: a)
  note IH = Cons.IH [OF d]
  show ?case
  proof (cases "k' = l")
    case True
    with nk show ?thesis by (auto simp: a rev_image_eqI)
  next
    case False
    then show ?thesis using IH nk by (auto simp: a rev_image_eqI)
  qed
qed

lemma organize_clusters_snoc:
  "organize_clusters (labels @ [l]) = add_index (organize_clusters labels) l (length labels)"
  by (simp add: organize_clusters_def enumerate_append_eq)


lemma members_snoc:
  "members (labels @ [l]) k = members labels k @ (if l = k then [length labels] else [])"
proof -
  have "filter (\<lambda>j. (labels @ [l]) ! j = k) [0 ..< length labels]
        = filter (\<lambda>j. labels ! j = k) [0 ..< length labels]"
    by (rule filter_cong) (auto simp: nth_append)
  then show ?thesis by (simp add: members_def)
qed

lemma members_not_in: "k \<notin> set labels \<Longrightarrow> members labels k = []"
  by (auto simp: members_def filter_empty_conv)

lemma organize_clusters_inv:
  "distinct (map fst (organize_clusters labels))
   \<and> fst ` set (organize_clusters labels) = set labels
   \<and> (\<forall>(k, idxs) \<in> set (organize_clusters labels). idxs = members labels k)"
proof (induction labels rule: rev_induct)
  case Nil
  show ?case by (simp add: organize_clusters_def)
next
  case (snoc l labels)
  let ?g = "organize_clusters labels"
  from snoc have d: "distinct (map fst ?g)" and keys: "fst ` set ?g = set labels"
    and mem: "\<And>k idxs. (k, idxs) \<in> set ?g \<Longrightarrow> idxs = members labels k" by auto
  have g': "organize_clusters (labels @ [l]) = add_index ?g l (length labels)"
    by (rule organize_clusters_snoc)
  have 1: "distinct (map fst (add_index ?g l (length labels)))"
    using d by (rule add_index_distinct_keys)
  have 2: "fst ` set (add_index ?g l (length labels)) = set (labels @ [l])"
  proof -
    have "fst ` set (add_index ?g l (length labels)) = set (map fst (add_index ?g l (length labels)))"
      by simp
    also have "\<dots> = set (labels @ [l])"
      unfolding add_index_keys using keys by auto
    finally show ?thesis .
  qed
  have 3: "idxs = members (labels @ [l]) k" if "(k, idxs) \<in> set (add_index ?g l (length labels))" for k idxs
  proof -
    from that add_index_mem [OF d, of k idxs l "length labels"]
    consider (other) "k \<noteq> l" "(k, idxs) \<in> set ?g"
      | (old) "k = l" "l \<in> fst ` set ?g" "\<exists>old. (l, old) \<in> set ?g \<and> idxs = old @ [length labels]"
      | (new) "k = l" "l \<notin> fst ` set ?g" "idxs = [length labels]"
      by (auto split: if_splits)
    then show ?thesis
    proof cases
      case other
      then show ?thesis using mem by (simp add: members_snoc)
    next
      case old
      then show ?thesis using mem by (auto simp: members_snoc)
    next
      case new
      then show ?thesis using keys by (simp add: members_snoc members_not_in)
    qed
  qed
  from 1 2 3 show ?case unfolding g' by auto
qed

lemma length_members: "length (members labels k) = count_list labels k"
proof (induction labels rule: rev_induct)
  case Nil
  show ?case by (simp add: members_def)
next
  case (snoc l labels)
  then show ?case by (simp add: members_snoc)
qed
lemma members_label: "x \<in> set (members labels k) \<Longrightarrow> x < length labels \<and> labels ! x = k"
  by (simp add: members_def)

lemma comprehension_list_all2:
  "comprehension f xs = Inr ys \<Longrightarrow> list_all2 (\<lambda>x y. f x = Inr y) xs ys"
  by (induction xs arbitrary: ys) (auto split: sum.splits)

lemma comprehension_returns:
  "(\<And>x. x \<in> set xs \<Longrightarrow> \<exists>y. f x = Inr y) \<Longrightarrow> \<exists>ys. comprehension f xs = Inr ys"
proof (induction xs)
  case Nil
  show ?case by simp
next
  case (Cons x xs)
  from Cons.prems obtain y where "f x = Inr y" by auto
  moreover from Cons obtain ys where "comprehension f xs = Inr ys" by auto
  ultimately show ?case by simp
qed

lemma make_cluster_fields:
  "make_cluster all_sequences c = Inr r \<Longrightarrow>
   cluster_id r = fst c \<and> sequence_indices r = snd c \<and> frequency r = length (snd c)"
  by (cases c) (auto simp: make_cluster_def Let_def split: if_splits)

lemma make_cluster_returns:
  "list_all (\<lambda>idx. idx < length all_sequences) (snd c) \<Longrightarrow>
   \<exists>r. make_cluster all_sequences c = Inr r"
  by (cases c) (simp add: make_cluster_def Let_def)

lemma build_library_entries:
  assumes "build_library all_sequences min_size labels = Inr lib"
  shows "map (\<lambda>r. (cluster_id r, sequence_indices r)) lib
           = filter (\<lambda>c. min_size \<le> int (length (snd c))) (organize_clusters labels)"
    and "\<And>r. r \<in> set lib \<Longrightarrow> frequency r = length (sequence_indices r)"
proof -
  let ?cs = "filter (\<lambda>c. min_size \<le> int (length (snd c))) (organize_clusters labels)"
  from assms have "list_all2 (\<lambda>c r. make_cluster all_sequences c = Inr r) ?cs lib"
    unfolding build_library_def by (rule comprehension_list_all2)
  then have rel: "list_all2 (\<lambda>c r. c = (cluster_id r, sequence_indices r)
                        \<and> frequency r = length (sequence_indices r)) ?cs lib"
    by (rule list_all2_mono) (auto dest: make_cluster_fields)
  then have "list_all2 (\<lambda>c r. c = (cluster_id r, sequence_indices r)) ?cs lib"
    by (rule list_all2_mono) simp
  then show "map (\<lambda>r. (cluster_id r, sequence_indices r)) lib = ?cs"
    by (induction rule: list_all2_induct) simp_all
  fix r assume "r \<in> set lib"
  with rel show "frequency r = length (sequence_indices r)"
    by (auto simp: list_all2_conv_all_nth in_set_conv_nth)
qed

lemma build_library_returns:
  assumes "length labels \<le> length all_sequences"
  shows "\<exists>lib. build_library all_sequences min_size labels = Inr lib"
  unfolding build_library_def
proof (rule comprehension_returns)
  fix c assume "c \<in> set (filter (\<lambda>c. min_size \<le> int (length (snd c))) (organize_clusters labels))"
  then have "(fst c, snd c) \<in> set (organize_clusters labels)" by simp
  with organize_clusters_inv [of labels] have "snd c = members labels (fst c)" by blast
  with assms have "list_all (\<lambda>idx. idx < length all_sequences) (snd c)"
    by (auto simp: list_all_iff dest: members_label)
  then show "\<exists>r. make_cluster all_sequences c = Inr r" by (rule make_cluster_returns)
qed

lemma library_clusters:
  assumes "build_library all_sequences min_size labels = Inr lib"
  shows "distinct (map cluster_id lib)"
    and "\<And>c. c \<in> set lib \<Longrightarrow>
           min_size \<le> int (frequency c) \<and> frequency c = length (sequence_indices c)
           \<and> sequence_indices c = members labels (cluster_id c)"
    and "\<And>l. (\<exists>c \<in> set lib. cluster_id c = l) \<longleftrightarrow>
           (l \<in> set labels \<and> min_size \<le> int (count_list labels l))"
proof -
  let ?g = "organize_clusters labels"
  let ?P = "\<lambda>c :: int \<times> nat list. min_size \<le> int (length (snd c))"
  note e = build_library_entries [OF assms]
  from organize_clusters_inv [of labels]
  have d: "distinct (map fst ?g)" and keys: "fst ` set ?g = set labels"
    and mem: "\<And>k idxs. (k, idxs) \<in> set ?g \<Longrightarrow> idxs = members labels k" by auto
  have ids: "map cluster_id lib = map fst (filter ?P ?g)"
  proof -
    have "map cluster_id lib = map fst (map (\<lambda>r. (cluster_id r, sequence_indices r)) lib)"
      by simp
    then show ?thesis unfolding e(1) .
  qed
  show "distinct (map cluster_id lib)"
    unfolding ids using d by (rule distinct_map_filter)
  have pair: "(cluster_id c, sequence_indices c) \<in> set (filter ?P ?g)" if "c \<in> set lib" for c
  proof -
    from that have "(cluster_id c, sequence_indices c)
        \<in> set (map (\<lambda>r. (cluster_id r, sequence_indices r)) lib)" by force
    then show ?thesis unfolding e(1) .
  qed
  show "min_size \<le> int (frequency c) \<and> frequency c = length (sequence_indices c)
           \<and> sequence_indices c = members labels (cluster_id c)" if "c \<in> set lib" for c
    using pair [OF that] e(2) [OF that] mem by auto
  show "(\<exists>c \<in> set lib. cluster_id c = l) \<longleftrightarrow>
           (l \<in> set labels \<and> min_size \<le> int (count_list labels l))" for l
  proof
    assume "\<exists>c \<in> set lib. cluster_id c = l"
    then obtain c where c: "c \<in> set lib" "cluster_id c = l" by blast
    from pair [OF c(1)] c(2) have in_g: "(l, sequence_indices c) \<in> set ?g"
      and big: "min_size \<le> int (length (sequence_indices c))" by auto
    from in_g keys have "l \<in> set labels" by force
    moreover from mem [OF in_g] big have "min_size \<le> int (count_list labels l)"
      by (simp add: length_members)
    ultimately show "l \<in> set labels \<and> min_size \<le> int (count_list labels l)" by simp
  next
    assume h: "l \<in> set labels \<and> min_size \<le> int (count_list labels l)"
    with keys obtain idxs where in_g: "(l, idxs) \<in> set ?g" by force
    from mem [OF in_g] h have "?P (l, idxs)" by (simp add: length_members)
    with in_g have "(l, idxs) \<in> set (filter ?P ?g)" by simp
    then have "(l, idxs) \<in> set (map (\<lambda>r. (cluster_id r, sequence_indices r)) lib)"
      unfolding e(1) .
    then show "\<exists>c \<in> set lib. cluster_id c = l" by auto
  qed
qed
lemma main_cluster_labels:
  assumes "run_clusterer libs a (map (map combined_vector) sequences) = Inr labels"
    and "build_library sequences (c_min_size a) labels = Inr lib"
  shows "main_cluster libs a sequences md =
           Clustered \<lparr> o_method = c_method a, o_n_clusters = c_n_clusters a,
                       o_min_size = c_min_size a, total_sequences = length sequences,
                       clusters_found = length lib, cluster_assignments = labels,
                       behavioral_library = lib, o_metadata = md \<rparr>"
  using assms by (simp add: main_cluster_def Let_def)

text \<open>
  C6: when the clusterer returns labels for the batch (at most one per sequence), the
  script prints a result in which every Cluster record has \<open>frequency \<ge> min_size\<close>, its
  frequency being the length of its member list and its members the positions carrying
  its label; the member lists of two different records share no index; and a label has
  a record exactly when its group has at least \<open>min_size\<close> members, so a smaller group
  produces none.
\<close>

theorem clusters_min_size_and_disjoint:
  assumes "run_clusterer libs a (map (map combined_vector) sequences) = Inr labels"
    and "length labels \<le> length sequences"
  shows "\<exists>out. main_cluster libs a sequences md = Clustered out
           \<and> cluster_assignments out = labels
           \<and> clusters_found out = length (behavioral_library out)
           \<and> (\<forall>c \<in> set (behavioral_library out).
                 c_min_size a \<le> int (frequency c)
               \<and> frequency c = length (sequence_indices c)
               \<and> sequence_indices c = members labels (cluster_id c))
           \<and> (\<forall>i j. i < j \<and> j < length (behavioral_library out) \<longrightarrow>
                 set (sequence_indices (behavioral_library out ! i))
                   \<inter> set (sequence_indices (behavioral_library out ! j)) = {})
           \<and> (\<forall>l. (\<exists>c \<in> set (behavioral_library out). cluster_id c = l) \<longleftrightarrow>
                 (l \<in> set labels \<and> c_min_size a \<le> int (count_list labels l)))"
proof -
  from build_library_returns [OF assms(2)] obtain lib
    where lib: "build_library sequences (c_min_size a) labels = Inr lib" by blast
  note props = library_clusters [OF lib]
  have disjoint: "set (sequence_indices (lib ! i)) \<inter> set (sequence_indices (lib ! j)) = {}"
    if "i < j" "j < length lib" for i j
  proof -
    from that have i: "i < length lib" by simp
    from props(1) that i have ne: "cluster_id (lib ! i) \<noteq> cluster_id (lib ! j)"
      by (auto simp: distinct_conv_nth)
    from i have "lib ! i \<in> set lib" by simp
    from props(2) [OF this]
    have mi: "sequence_indices (lib ! i) = members labels (cluster_id (lib ! i))" by simp
    from that have "lib ! j \<in> set lib" by simp
    from props(2) [OF this]
    have mj: "sequence_indices (lib ! j) = members labels (cluster_id (lib ! j))" by simp
    show ?thesis
    proof (rule ccontr)
      assume "set (sequence_indices (lib ! i)) \<inter> set (sequence_indices (lib ! j)) \<noteq> {}"
      then obtain x where "x \<in> set (members labels (cluster_id (lib ! i)))"
        and "x \<in> set (members labels (cluster_id (lib ! j)))"
        unfolding mi mj by blast
      then have "labels ! x = cluster_id (lib ! i)" and "labels ! x = cluster_id (lib ! j)"
        by (simp_all add: members_def)
      with ne show False by simp
    qed
  qed
  have members: "\<forall>c \<in> set lib. c_min_size a \<le> int (frequency c)
               \<and> frequency c = length (sequence_indices c)
               \<and> sequence_indices c = members labels (cluster_id c)"
    using props(2) by blast
  have apart: "\<forall>i j. i < j \<and> j < length lib \<longrightarrow>
                 set (sequence_indices (lib ! i)) \<inter> set (sequence_indices (lib ! j)) = {}"
    using disjoint by blast
  have records: "\<forall>l. (\<exists>c \<in> set lib. cluster_id c = l) \<longleftrightarrow>
                 (l \<in> set labels \<and> c_min_size a \<le> int (count_list labels l))"
    using props(3) by blast
  have "\<exists>out. main_cluster libs a sequences md = Clustered out
          \<and> cluster_assignments out = labels \<and> behavioral_library out = lib
          \<and> clusters_found out = length lib"
    unfolding main_cluster_labels [OF assms(1) lib] by simp
  then obtain out where out: "main_cluster libs a sequences md = Clustered out"
    and fields: "cluster_assignments out = labels" "behavioral_library out = lib"
      "clusters_found out = length lib"
    by blast
  show ?thesis
    unfolding out
    by (rule exI [of _ out], unfold fields) (use members apart records in blast)
qed

theorem clusters_min_size_and_disjoint_witness:
  "run_clusterer (fixed_libs [0, 0, 1, 0]) (kmeans_args 2 3)
      (map (map combined_vector) four_sequences) = Inr [0, 0, 1, 0]
   \<and> length [0, 0, 1, 0 :: int] \<le> length four_sequences
   \<and> (\<exists>out. main_cluster (fixed_libs [0, 0, 1, 0]) (kmeans_args 2 3) four_sequences (JObj [])
                = Clustered out
           \<and> map cluster_id (behavioral_library out) = [0]
           \<and> map sequence_indices (behavioral_library out) = [[0, 1, 3]]
           \<and> map frequency (behavioral_library out) = [3])"
proof -
  have run: "run_clusterer (fixed_libs [0, 0, 1, 0]) (kmeans_args 2 3)
      (map (map combined_vector) four_sequences) = Inr [0, 0, 1, 0]"
    by (simp add: run_clusterer_def cluster_with_kmeans_def max_length_of_def fixed_libs_def
          kmeans_args_def four_sequences_def tiny_event_def Let_def)
  have len: "length [0, 0, 1, 0 :: int] \<le> length four_sequences"
    by (simp add: four_sequences_def)
  have org: "organize_clusters [0, 0, 1, 0] = [(0, [0, 1, 3]), (1, [2])]"
    by (simp add: organize_clusters_def enumerate_eq_zip upt_rec)
  from clusters_min_size_and_disjoint [OF run len, of "JObj []"]
  obtain out where out:
    "main_cluster (fixed_libs [0, 0, 1, 0]) (kmeans_args 2 3) four_sequences (JObj []) = Clustered out"
    by blast
  have lib: "\<exists>r. build_library four_sequences 3 [0, 0, 1, 0] = Inr [r]
            \<and> cluster_id r = 0 \<and> sequence_indices r = [0, 1, 3] \<and> frequency r = 3"
    by (simp add: build_library_def org make_cluster_def four_sequences_def Let_def)
  with out run len show ?thesis
    by (auto simp: main_cluster_def Let_def kmeans_args_def)
qed

subsection \<open>Failure of the clustering script\<close>

lemma max_length_of_nonempty:
  "sequences \<noteq> [] \<Longrightarrow> \<exists>m. max_length_of sequences = Inr m"
  by (cases sequences) (simp_all add: max_length_of_def)

lemma pad_one_nonempty: "seq \<noteq> [] \<Longrightarrow> \<exists>padded. pad_one m seq = Inr padded"
  by (cases seq) (simp_all add: pad_one_def)

lemma pad_sequences_nonempty:
  assumes "sequences \<noteq> []" and "\<forall>s \<in> set sequences. s \<noteq> []"
  shows "\<exists>padded. pad_sequences sequences = Inr padded"
proof -
  from max_length_of_nonempty [OF assms(1)] obtain m where m: "max_length_of sequences = Inr m"
    by blast
  have "\<exists>padded. comprehension (pad_one m) sequences = Inr padded"
    using assms(2) by (intro comprehension_returns pad_one_nonempty) blast
  with m show ?thesis by (simp add: pad_sequences_def)
qed

lemma main_cluster_failed_iff:
  "main_cluster libs a sequences md = ClusteringFailed e \<longleftrightarrow>
     run_clusterer libs a (map (map combined_vector) sequences) = Inl e"
  by (auto simp: main_cluster_def Let_def split: sum.splits)

text \<open>
  The script has no check of its own on the number of sequences or on the requested
  cluster count. An empty batch ends it with exit code 1, because the \<open>max\<close> of no
  lengths raises; on a non-empty batch of non-empty sequences it ends with "Clustering
  failed" exactly when the clustering library raises on the prepared batch, with the
  library's exception, the requested cluster count being handed to the library
  unchanged.
\<close>

lemma main_cluster_fails_with_library:
  "(sequences = [] \<longrightarrow> main_cluster libs a sequences md = ClusteringFailed ValueError)
   \<and> (sequences \<noteq> [] \<and> (\<forall>s \<in> set sequences. s \<noteq> []) \<longrightarrow>
        (main_cluster libs a sequences md = ClusteringFailed e \<longleftrightarrow>
           (if c_method a = Dtw \<and> has_tslearn libs
            then \<exists>padded. pad_sequences (map (map combined_vector) sequences) = Inr padded
                   \<and> dtw_fit_predict libs (c_n_clusters a) padded = Inl e
            else \<exists>m. max_length_of (map (map combined_vector) sequences) = Inr m
                   \<and> kmeans_fit_predict libs (c_n_clusters a)
                        (map (flatten_one (m * length (combined_vector (hd (hd sequences)))))
                           (map (map combined_vector) sequences)) = Inl e)))"
proof (intro conjI impI)
  assume "sequences = []"
  then show "main_cluster libs a sequences md = ClusteringFailed ValueError"
    by (simp add: main_cluster_def run_clusterer_def cluster_with_dtw_def
          cluster_with_kmeans_def pad_sequences_def max_length_of_def)
next
  let ?vs = "map (map combined_vector) sequences"
  assume h: "sequences \<noteq> [] \<and> (\<forall>s \<in> set sequences. s \<noteq> [])"
  then have ne: "?vs \<noteq> []" and all_ne: "\<forall>s \<in> set ?vs. s \<noteq> []" by auto
  from pad_sequences_nonempty [OF ne all_ne] obtain padded
    where padded: "pad_sequences ?vs = Inr padded" by blast
  from max_length_of_nonempty [OF ne] obtain m where m: "max_length_of ?vs = Inr m" by blast
  from h obtain s ss where s: "sequences = s # ss" by (cases sequences) auto
  with h obtain ev evs where ev: "s = ev # evs" by (cases s) auto
  show "main_cluster libs a sequences md = ClusteringFailed e \<longleftrightarrow>
           (if c_method a = Dtw \<and> has_tslearn libs
            then \<exists>padded. pad_sequences ?vs = Inr padded
                   \<and> dtw_fit_predict libs (c_n_clusters a) padded = Inl e
            else \<exists>m. max_length_of ?vs = Inr m
                   \<and> kmeans_fit_predict libs (c_n_clusters a)
                        (map (flatten_one (m * length (combined_vector (hd (hd sequences))))) ?vs)
                      = Inl e)"
  proof (cases "c_method a = Dtw \<and> has_tslearn libs")
    case True
    then show ?thesis
      unfolding main_cluster_failed_iff
      by (simp add: run_clusterer_def cluster_with_dtw_def padded)
  next
    case False
    have "cluster_with_kmeans libs ?vs (c_n_clusters a)
          = kmeans_fit_predict libs (c_n_clusters a)
              (map (flatten_one (m * length (combined_vector (hd (hd sequences))))) ?vs)"
      using m by (simp add: cluster_with_kmeans_def s ev Let_def)
    with False show ?thesis
      unfolding main_cluster_failed_iff
      by (auto simp: run_clusterer_def m)
  qed
qed

end
